theory Spec2Isabelle
  imports Complex_Main "HOL-Library.Sublist" "HOL-Library.Multiset" "HOL-Library.Char_ord"
    "HOL-Library.List_Lexorder"
begin

section \<open>devcert: domain certificates signed by a local root CA\<close>

text \<open>
  A shallow embedding of \<^verbatim>\<open>src/index.ts\<close> and \<^verbatim>\<open>src/certificates.ts\<close>.
  Every function of the two files becomes a function on an explicit world: the files on
  disk and the trace of the calls that leave the process (the OpenSSL subprocess, the
  filesystem mutations, the certificate-authority manager, the hosts-file helper).
  A JavaScript exception is the \<open>Inl\<close> of the result, and the world that the exception
  leaves behind is returned next to it, since the effects made before a \<^verbatim>\<open>throw\<close> stay.
  An \<^verbatim>\<open>await\<close> on a promise is sequential composition: the promise's rejection is
  the exception of the awaiting function.
\<close>

subsection \<open>Files, events, errors\<close>

type_synonym path = string

datatype node = File (content: string) (mode: nat) | Dir

type_synonym filesystem = "path \<rightharpoonup> node"

text \<open>The calls that leave the process, in the order in which the code makes them.\<close>

datatype event =
    Openssl "string list"
  | Chmod path nat
  | Mkdirp path
  | Rimraf path
  | InstallCA
  | EnsureCAReadable
  | AddHost string
  | AcquireCredentials
  | ReleaseCredentials
  | WriteSigningRequestConfig "string list"
  | WriteCertificateConfig "string list"
  | RemoveConfig path

text \<open>
  A JavaScript number, as far as the expiry queries hand one on: a finite value, one of
  the two infinities, or not-a-number.
\<close>

datatype number = Number real | NaN | PosInfinity | NegInfinity

datatype error =
    InvalidDomain string
  | PlatformNotSupported string
  | OpenSSLNotFound
  | ExternalFailure string

record world =
  files :: filesystem
  trace :: "event list"

record options =
  getCaBuffer :: bool
  getCaPath :: bool
  skipCertutilInstall :: bool
  skipHostsFile :: bool

text \<open>
  What the two files import and this development does not have the code of: the
  \<^verbatim>\<open>is-valid-domain\<close> and \<^verbatim>\<open>command-exists\<close> packages, the platform flags and
  the path constants of \<^verbatim>\<open>./constants\<close>, the OpenSSL subprocess of \<^verbatim>\<open>./utils\<close>,
  the certificate-authority manager and the platform's hosts-file helper. They are
  parameters: each external action is any function on the filesystem, returning its
  failure message or its value. The parser of \<^verbatim>\<open>./utils\<close> is any function from the
  text to a number, or to the message of the exception it raises. \<open>isValidDomain\<close> stands for the package's check with the
  fixed options \<^verbatim>\<open>{subdomain: true, wildcard: false, allowUnicode: true, topLevel: false}\<close>.
\<close>

record env =
  isValidDomain :: "string \<Rightarrow> bool"
  isMac :: bool
  isLinux :: bool
  isWindows :: bool
  platform :: string
  commandExists :: "string \<Rightarrow> bool"
  domainsDir :: path
  rootCAKeyPath :: path
  rootCACertPath :: path
  separator :: string
  canRead :: "nat \<Rightarrow> bool"
  openssl_tool :: "string list \<Rightarrow> filesystem \<Rightarrow> (string + string) \<times> filesystem"
  parseOpenSSLExpiryData_impl :: "string \<Rightarrow> string + number"
  installCertificateAuthority_impl :: "options \<Rightarrow> filesystem \<Rightarrow> (string + unit) \<times> filesystem"
  ensureCACertReadable_impl :: "options \<Rightarrow> filesystem \<Rightarrow> (string + unit) \<times> filesystem"
  addDomainToHostFileIfMissing_impl :: "string \<Rightarrow> filesystem \<Rightarrow> filesystem"
  acquireCredentials_impl :: "filesystem \<Rightarrow> (string + path \<times> path) \<times> filesystem"
  releaseCredentials_impl :: "filesystem \<Rightarrow> filesystem"
  writeSigningRequestConfig_impl :: "string list \<Rightarrow> filesystem \<Rightarrow> (string + path) \<times> filesystem"
  writeCertificateConfig_impl :: "string list \<Rightarrow> filesystem \<Rightarrow> (string + path) \<times> filesystem"
  removeConfig_impl :: "path \<Rightarrow> filesystem \<Rightarrow> filesystem"

subsection \<open>Sequencing\<close>

type_synonym 'a action = "world \<Rightarrow> (error + 'a) \<times> world"

definition done_with :: "'a \<Rightarrow> 'a action" where
  "done_with x w = (Inr x, w)"

definition throw :: "error \<Rightarrow> 'a action" where
  "throw err w = (Inl err, w)"

text \<open>Statement after statement: an exception of the first skips the second.\<close>

definition andThen :: "'a action \<Rightarrow> ('a \<Rightarrow> 'b action) \<Rightarrow> 'b action" where
  "andThen m f w = (case m w of (Inl err, w') \<Rightarrow> (Inl err, w') | (Inr x, w') \<Rightarrow> f x w')"


text \<open>An external action that may fail: the call is traced, then it acts on the files.\<close>

definition external :: "event \<Rightarrow> (filesystem \<Rightarrow> (string + 'a) \<times> filesystem) \<Rightarrow> 'a action" where
  "external ev f w =
     (case f (files w) of
        (Inl msg, fs') \<Rightarrow> (Inl (ExternalFailure msg), \<lparr>files = fs', trace = trace w @ [ev]\<rparr>)
      | (Inr x, fs') \<Rightarrow> (Inr x, \<lparr>files = fs', trace = trace w @ [ev]\<rparr>))"

text \<open>An external action whose failure the caller never sees.\<close>

definition external_total :: "event \<Rightarrow> (filesystem \<Rightarrow> filesystem) \<Rightarrow> unit action" where
  "external_total ev f w = (Inr (), \<lparr>files = f (files w), trace = trace w @ [ev]\<rparr>)"

subsection \<open>The filesystem calls of Node and of mkdirp and rimraf\<close>

definition exists :: "filesystem \<Rightarrow> path \<Rightarrow> bool" where
  "exists fs p = (fs p \<noteq> None)"

text \<open>\<^verbatim>\<open>readFileSync\<close>: raises on a missing path, a directory or an unreadable file.\<close>

definition readFile :: "env \<Rightarrow> path \<Rightarrow> string action" where
  "readFile e p w =
     (case files w p of
        None \<Rightarrow> (Inl (ExternalFailure ''ENOENT''), w)
      | Some Dir \<Rightarrow> (Inl (ExternalFailure ''EISDIR''), w)
      | Some (File c m) \<Rightarrow>
          if canRead e m then (Inr c, w) else (Inl (ExternalFailure ''EACCES''), w))"

text \<open>
  \<^verbatim>\<open>chmodSync(path, mode)\<close> with a numeric mode: the permission bits of the file
  become that number.
\<close>

definition chmod :: "path \<Rightarrow> nat \<Rightarrow> unit action" where
  "chmod p m =
     external (Chmod p m)
       (\<lambda>fs. case fs p of
          None \<Rightarrow> (Inl ''ENOENT'', fs)
        | Some Dir \<Rightarrow> (Inr (), fs)
        | Some (File c old) \<Rightarrow> (Inr (), fs(p \<mapsto> File c m)))"

definition mkdirp :: "path \<Rightarrow> unit action" where
  "mkdirp p =
     external (Mkdirp p)
       (\<lambda>fs. case fs p of
          None \<Rightarrow> (Inr (), fs(p \<mapsto> Dir))
        | Some Dir \<Rightarrow> (Inr (), fs)
        | Some (File c m) \<Rightarrow> (Inl ''EEXIST'', fs))"

text \<open>\<^verbatim>\<open>rimraf.sync\<close>: the path and everything below it are gone; a missing path is fine.\<close>

definition rimraf :: "path \<Rightarrow> unit action" where
  "rimraf p =
     external_total (Rimraf p)
       (\<lambda>fs q. if q = p \<or> prefix (p @ ''/'') q then None else fs q)"

subsection \<open>The missing modules\<close>

text \<open>
  Modelled from the spec: \<^verbatim>\<open>getStableDomainPath\<close> of \<^verbatim>\<open>./constants\<close> is not among
  the sources. The spec (4.1) gives it as a pure, order-independent function of the domain
  list, "sort + join"; the joining string is not stated and is the parameter \<open>separator\<close>.
\<close>

fun join :: "string \<Rightarrow> string list \<Rightarrow> string" where
  "join sep [] = []"
| "join sep [x] = x"
| "join sep (x # y # ys) = x @ sep @ join sep (y # ys)"

definition getStableDomainPath :: "env \<Rightarrow> string list \<Rightarrow> string" where
  "getStableDomainPath e domains = join (separator e) (sort domains)"

text \<open>
  Modelled from the spec: \<^verbatim>\<open>pathForDomain\<close> of \<^verbatim>\<open>./constants\<close> is not among the
  sources. The spec (6) gives the layout
  \<^verbatim>\<open>domains/<domain-set-id>/{private-key.key, certificate.crt, certificate-signing-request.csr}\<close>.
\<close>

definition pathForDomain :: "env \<Rightarrow> string \<Rightarrow> string list \<Rightarrow> path" where
  "pathForDomain e domainPath pathSegments = join ''/'' (domainsDir e # domainPath # pathSegments)"

definition openssl :: "env \<Rightarrow> string list \<Rightarrow> string action" where
  "openssl e args = external (Openssl args) (openssl_tool e args)"


text \<open>
  Modelled from the spec: \<^verbatim>\<open>withCertificateAuthorityCredentials\<close> of
  \<^verbatim>\<open>./certificate-authority\<close> is not among the sources. The spec (4.3) gives it as a
  scoped acquisition: it resolves the CA key and certificate paths, hands them to the
  supplied operation, and reverts what it widened on every exit path.
\<close>

definition withCertificateAuthorityCredentials ::
    "env \<Rightarrow> (path \<times> path \<Rightarrow> unit action) \<Rightarrow> unit action" where
  "withCertificateAuthorityCredentials e cb =
     andThen (external AcquireCredentials (acquireCredentials_impl e))
       (\<lambda>creds w.
          case cb creds w of
            (r, w') \<Rightarrow>
              (case external_total ReleaseCredentials (releaseCredentials_impl e) w' of
                 (_, w'') \<Rightarrow> (r, w'')))"

text \<open>
  Modelled from the spec: \<^verbatim>\<open>withDomainSigningRequestConfig\<close> and
  \<^verbatim>\<open>withDomainCertificateConfig\<close> of \<^verbatim>\<open>./constants\<close> are not among the sources. The
  spec (4.5) has the CSR and the certificate built from a generated OpenSSL-style
  configuration that embeds the domain list: the configuration is written, its path is
  handed to the supplied operation, and it is removed when the operation returns.
\<close>

definition withDomainSigningRequestConfig ::
    "env \<Rightarrow> string list \<Rightarrow> (path \<Rightarrow> 'a action) \<Rightarrow> unit action" where
  "withDomainSigningRequestConfig e domains cb =
     andThen (external (WriteSigningRequestConfig domains) (writeSigningRequestConfig_impl e domains))
       (\<lambda>configpath. andThen (cb configpath)
          (\<lambda>_. external_total (RemoveConfig configpath) (removeConfig_impl e configpath)))"

definition withDomainCertificateConfig ::
    "env \<Rightarrow> string list \<Rightarrow> (path \<Rightarrow> 'a action) \<Rightarrow> unit action" where
  "withDomainCertificateConfig e domains cb =
     andThen (external (WriteCertificateConfig domains) (writeCertificateConfig_impl e domains))
       (\<lambda>configpath. andThen (cb configpath)
          (\<lambda>_. external_total (RemoveConfig configpath) (removeConfig_impl e configpath)))"

definition installCertificateAuthority :: "env \<Rightarrow> options \<Rightarrow> unit action" where
  "installCertificateAuthority e opts = external InstallCA (installCertificateAuthority_impl e opts)"

definition ensureCACertReadable :: "env \<Rightarrow> options \<Rightarrow> unit action" where
  "ensureCACertReadable e opts = external EnsureCAReadable (ensureCACertReadable_impl e opts)"

subsection \<open>certificates.ts\<close>

definition generateKey :: "env \<Rightarrow> path \<Rightarrow> unit action" where
  "generateKey e filename =
     andThen (openssl e [''genrsa'', ''-out'', filename, ''2048''])
       (\<lambda>_. chmod filename 400)"

definition generateDomainCertificate :: "env \<Rightarrow> string list \<Rightarrow> unit action" where
  "generateDomainCertificate e domains =
     (let domainPath = getStableDomainPath e domains in
      andThen (mkdirp (pathForDomain e domainPath []))
        (\<lambda>_. let domainKeyPath = pathForDomain e domainPath [''private-key.key''] in
          andThen (generateKey e domainKeyPath)
            (\<lambda>_. let csrFile = pathForDomain e domainPath [''certificate-signing-request.csr''] in
              andThen
                (withDomainSigningRequestConfig e domains
                   (\<lambda>configpath.
                      openssl e [''req'', ''-new'', ''-config'', configpath,
                                 ''-key'', domainKeyPath, ''-out'', csrFile]))
                (\<lambda>_. let domainCertPath = pathForDomain e domainPath [''certificate.crt''] in
                  withCertificateAuthorityCredentials e
                    (\<lambda>(caKeyPath, caCertPath).
                       withDomainCertificateConfig e domains
                         (\<lambda>domainCertConfigPath.
                            openssl e
                              [''ca'', ''-config'', domainCertConfigPath,
                               ''-in'', csrFile, ''-out'', domainCertPath,
                               ''-keyfile'', caKeyPath, ''-cert'', caCertPath,
                               ''-days'', ''825'', ''-batch'']))))))"

definition revokeDomainCertificate :: "env \<Rightarrow> string list \<Rightarrow> unit action" where
  "revokeDomainCertificate e domains =
     (let domainPath = getStableDomainPath e domains;
          domainCertPath = pathForDomain e domainPath [''certificate.crt''] in
      withCertificateAuthorityCredentials e
        (\<lambda>(caKeyPath, caCertPath).
           withDomainCertificateConfig e domains
             (\<lambda>domainCertConfigPath.
                openssl e
                  [''ca'', ''-config'', domainCertConfigPath,
                   ''-revoke'', domainCertPath,
                   ''-keyfile'', caKeyPath, ''-cert'', caCertPath])))"

subsection \<open>index.ts\<close>

text \<open>\<^verbatim>\<open>string | string[]\<close>, and the array that each function makes of it.\<close>

datatype requested = One string | Many "string list"

fun toDomains :: "requested \<Rightarrow> string list" where
  "toDomains (Many domains) = domains"
| "toDomains (One domain) = [domain]"

text \<open>\<^verbatim>\<open>IReturnData\<close>: the key and the certificate, and the CA material that was asked for.\<close>

record certificate_data =
  key :: string
  cert :: string
  ca :: "string option"
  caPath :: "path option"

text \<open>The first \<^verbatim>\<open>forEach\<close>: the exception of the first bad domain ends the loop.\<close>

fun validateDomains :: "env \<Rightarrow> string list \<Rightarrow> unit action" where
  "validateDomains e [] = done_with ()"
| "validateDomains e (domain # rest) =
     (if domain \<noteq> ''localhost'' \<and> \<not> isValidDomain e domain
      then throw (InvalidDomain domain)
      else validateDomains e rest)"

text \<open>
  The second \<^verbatim>\<open>forEach\<close>: one asynchronous task for each domain, none of them awaited.
  The tasks are run here where they are started; a rejection of theirs reaches nobody,
  so the helper is an action that cannot fail.
\<close>

fun addDomainsToHostFile :: "env \<Rightarrow> string list \<Rightarrow> unit action" where
  "addDomainsToHostFile e [] = done_with ()"
| "addDomainsToHostFile e (domain # rest) =
     andThen (external_total (AddHost domain) (addDomainToHostFileIfMissing_impl e domain))
       (\<lambda>_. addDomainsToHostFile e rest)"

definition certificateFor :: "env \<Rightarrow> requested \<Rightarrow> options \<Rightarrow> certificate_data action" where
  "certificateFor e requestedDomains opts =
     (let domains = toDomains requestedDomains in
      andThen (validateDomains e domains)
        (\<lambda>_. let domainPath = getStableDomainPath e domains in
          if \<not> isMac e \<and> \<not> isLinux e \<and> \<not> isWindows e
          then throw (PlatformNotSupported (platform e))
          else if \<not> commandExists e ''openssl''
          then throw OpenSSLNotFound
          else
            let domainKeyPath = pathForDomain e domainPath [''private-key.key''];
                domainCertPath = pathForDomain e domainPath [''certificate.crt'']
            in
            andThen
              (\<lambda>w. if \<not> exists (files w) (rootCAKeyPath e)
                    then installCertificateAuthority e opts w
                    else if getCaBuffer opts \<or> getCaPath opts
                    then ensureCACertReadable e opts w
                    else done_with () w)
              (\<lambda>_. andThen
                (\<lambda>w. if \<not> exists (files w) (pathForDomain e domainPath [''certificate.crt''])
                      then generateDomainCertificate e domains w
                      else done_with () w)
                (\<lambda>_. andThen
                  (if \<not> skipHostsFile opts then addDomainsToHostFile e domains
                   else done_with ())
                  (\<lambda>_. andThen (readFile e domainKeyPath)
                    (\<lambda>k. andThen (readFile e domainCertPath)
                      (\<lambda>c. andThen
                        (if getCaBuffer opts
                         then andThen (readFile e (rootCACertPath e)) (\<lambda>b. done_with (Some b))
                         else done_with None)
                        (\<lambda>caBuffer.
                           done_with
                             \<lparr>key = k, cert = c, ca = caBuffer,
                              caPath = (if getCaPath opts then Some (rootCACertPath e)
                                        else None)\<rparr>))))))))"

definition hasCertificateFor :: "env \<Rightarrow> requested \<Rightarrow> world \<Rightarrow> bool" where
  "hasCertificateFor e requestedDomains w =
     (let domains = toDomains requestedDomains;
          domainPath = getStableDomainPath e domains in
      exists (files w) (pathForDomain e domainPath [''certificate.crt'']))"

definition removeDomain :: "env \<Rightarrow> requested \<Rightarrow> unit action" where
  "removeDomain e requestedDomains =
     (let domains = toDomains requestedDomains in
      andThen (revokeDomainCertificate e domains)
        (\<lambda>_. let domainPath = getStableDomainPath e domains in
          rimraf (pathForDomain e domainPath [])))"





subsection \<open>Permission bits\<close>

text \<open>The three octal digits of a mode: owner, group, others (4 read, 2 write, 1 execute).\<close>

definition ownerBits :: "nat \<Rightarrow> nat" where
  "ownerBits m = (m div 64) mod 8"

definition groupBits :: "nat \<Rightarrow> nat" where
  "groupBits m = (m div 8) mod 8"

definition otherBits :: "nat \<Rightarrow> nat" where
  "otherBits m = m mod 8"

definition ownerReadOnly :: "nat \<Rightarrow> bool" where
  "ownerReadOnly m = (ownerBits m = 4 \<and> groupBits m = 0 \<and> otherBits m = 0)"

subsection \<open>A platform to run the functions on\<close>

text \<open>
  One instance of the parameters, for the concrete runs below: a Linux machine with
  OpenSSL installed, whose subprocess writes the file named after \<^verbatim>\<open>-out\<close> and fails
  on an input file that is not there.
\<close>

definition sample_openssl :: "string list \<Rightarrow> filesystem \<Rightarrow> (string + string) \<times> filesystem" where
  "sample_openssl args fs =
     (if length args = 4 \<and> take 1 args = [''genrsa'']
      then (Inr [], fs(args ! 2 \<mapsto> File ''RSA PRIVATE KEY'' 420))
      else if length args = 8 \<and> take 2 args = [''req'', ''-new'']
      then (if fs (args ! 5) = None then (Inl ''unable to load key'', fs)
            else (Inr [], fs(args ! 7 \<mapsto> File ''CERTIFICATE REQUEST'' 420)))
      else if length args = 14 \<and> take 1 args = [''ca'']
      then (if fs (args ! 4) = None \<or> fs (args ! 8) = None \<or> fs (args ! 10) = None
            then (Inl ''unable to load input'', fs)
            else (Inr [], fs(args ! 6 \<mapsto> File ''CERTIFICATE'' 420)))
      else if length args = 9 \<and> take 2 args = [''ca'', ''-config''] \<and> args ! 3 = ''-revoke''
      then (if fs (args ! 4) = None then (Inl ''unable to load certificate'', fs)
            else (Inr [], fs))
      else if length args = 5 \<and> take 1 args = [''x509'']
      then (if fs (args ! 2) = None then (Inl ''unable to load certificate'', fs)
            else (Inr ''notAfter=Feb  5 12:00:00 2029 GMT '', fs))
      else (Inl ''usage'', fs))"

definition sample_env :: env where
  "sample_env =
     \<lparr>isValidDomain = (\<lambda>d. d \<noteq> [] \<and> CHR ''*'' \<notin> set d \<and> CHR '' '' \<notin> set d),
      isMac = False,
      isLinux = True,
      isWindows = False,
      platform = ''linux'',
      commandExists = (\<lambda>c. c = ''openssl''),
      domainsDir = ''/cfg/domains'',
      rootCAKeyPath = ''/cfg/ca/private-key.key'',
      rootCACertPath = ''/cfg/ca/certificate.cert'',
      separator = '','',
      canRead = (\<lambda>m. 4 \<le> ownerBits m),
      openssl_tool = sample_openssl,
      parseOpenSSLExpiryData_impl =
        (\<lambda>s. if take 9 s = ''notAfter='' then Inr (Number 800) else Inl ''no date''),
      installCertificateAuthority_impl =
        (\<lambda>opts fs. (Inr (), fs(''/cfg/ca/private-key.key'' \<mapsto> File ''CA KEY'' 256,
                                ''/cfg/ca/certificate.cert'' \<mapsto> File ''CA CERTIFICATE'' 420))),
      ensureCACertReadable_impl =
        (\<lambda>opts fs. case fs ''/cfg/ca/certificate.cert'' of
                      Some (File c m) \<Rightarrow> (Inr (), fs(''/cfg/ca/certificate.cert'' \<mapsto> File c 420))
                    | _ \<Rightarrow> (Inl ''no CA certificate'', fs)),
      addDomainToHostFileIfMissing_impl =
        (\<lambda>d fs. fs(''/etc/hosts'' \<mapsto> File (''127.0.0.1 '' @ d) 420)),
      acquireCredentials_impl =
        (\<lambda>fs. if fs ''/cfg/ca/private-key.key'' = None then (Inl ''no CA key'', fs)
               else (Inr (''/tmp/ca.key'', ''/tmp/ca.crt''),
                     fs(''/tmp/ca.key'' \<mapsto> File ''CA KEY'' 256,
                        ''/tmp/ca.crt'' \<mapsto> File ''CA CERTIFICATE'' 256))),
      releaseCredentials_impl = (\<lambda>fs. fs(''/tmp/ca.key'' := None, ''/tmp/ca.crt'' := None)),
      writeSigningRequestConfig_impl =
        (\<lambda>ds fs. (Inr ''/tmp/csr.conf'', fs(''/tmp/csr.conf'' \<mapsto> File (join '','' ds) 420))),
      writeCertificateConfig_impl =
        (\<lambda>ds fs. (Inr ''/tmp/cert.conf'', fs(''/tmp/cert.conf'' \<mapsto> File (join '','' ds) 420))),
      removeConfig_impl = (\<lambda>p fs. if take 5 p = ''/tmp/'' then fs(p := None) else fs)\<rparr>"



text \<open>
  The sample platform with an installer that first clears the tree of the domain
  certificates, then writes the root CA.
\<close>

definition wiping_env :: env where
  "wiping_env =
     sample_env\<lparr>installCertificateAuthority_impl :=
       (\<lambda>opts fs.
          (Inr (),
           (\<lambda>q. if prefix ''/cfg/domains'' q then None else fs q)
             (''/cfg/ca/private-key.key'' \<mapsto> File ''CA KEY'' 256,
              ''/cfg/ca/certificate.cert'' \<mapsto> File ''CA CERTIFICATE'' 420)))\<rparr>"

definition caOptions :: options where
  "caOptions = \<lparr>getCaBuffer = True, getCaPath = False,
                 skipCertutilInstall = False, skipHostsFile = False\<rparr>"

definition fresh :: world where
  "fresh = \<lparr>files = Map.empty, trace = []\<rparr>"

definition noOptions :: options where
  "noOptions = \<lparr>getCaBuffer = False, getCaPath = False,
                 skipCertutilInstall = False, skipHostsFile = False\<rparr>"

definition installed :: world where
  "installed =
     \<lparr>files = [''/cfg/ca/private-key.key'' \<mapsto> File ''CA KEY'' 256,
               ''/cfg/ca/certificate.cert'' \<mapsto> File ''CA CERTIFICATE'' 420],
      trace = []\<rparr>"

text \<open>A world in which the root CA is installed and a certificate for \<^verbatim>\<open>a.test\<close> is cached.\<close>

definition issued :: world where
  "issued =
     \<lparr>files = [''/cfg/ca/private-key.key'' \<mapsto> File ''CA KEY'' 256,
               ''/cfg/ca/certificate.cert'' \<mapsto> File ''CA CERTIFICATE'' 420,
               ''/cfg/domains/a.test'' \<mapsto> Dir,
               ''/cfg/domains/a.test/private-key.key'' \<mapsto> File ''RSA PRIVATE KEY'' 400,
               ''/cfg/domains/a.test/certificate.crt'' \<mapsto> File ''CERTIFICATE'' 420],
      trace = []\<rparr>"

text \<open>A world in which the key of \<^verbatim>\<open>a.test\<close> is on disk and its certificate is not.\<close>

definition keyOnly :: world where
  "keyOnly =
     \<lparr>files = [''/cfg/ca/private-key.key'' \<mapsto> File ''CA KEY'' 256,
               ''/cfg/ca/certificate.cert'' \<mapsto> File ''CA CERTIFICATE'' 420,
               ''/cfg/domains/a.test'' \<mapsto> Dir,
               ''/cfg/domains/a.test/private-key.key'' \<mapsto> File ''RSA PRIVATE KEY'' 400],
      trace = []\<rparr>"

subsection \<open>Notions for the proofs\<close>

text \<open>The statements of \<open>certificateFor\<close> after its checks, one by one.\<close>

definition caStep :: "env \<Rightarrow> options \<Rightarrow> unit action" where
  "caStep e opts w =
     (if \<not> exists (files w) (rootCAKeyPath e) then installCertificateAuthority e opts w
      else if getCaBuffer opts \<or> getCaPath opts then ensureCACertReadable e opts w
      else done_with () w)"

definition domainStep :: "env \<Rightarrow> string list \<Rightarrow> unit action" where
  "domainStep e domains w =
     (if \<not> exists (files w)
            (pathForDomain e (getStableDomainPath e domains) [''certificate.crt''])
      then generateDomainCertificate e domains w
      else done_with () w)"

definition hostsStep :: "env \<Rightarrow> options \<Rightarrow> string list \<Rightarrow> unit action" where
  "hostsStep e opts domains =
     (if \<not> skipHostsFile opts then addDomainsToHostFile e domains else done_with ())"

definition returnStep :: "env \<Rightarrow> options \<Rightarrow> string list \<Rightarrow> certificate_data action" where
  "returnStep e opts domains =
     andThen (readFile e (pathForDomain e (getStableDomainPath e domains) [''private-key.key'']))
       (\<lambda>k. andThen
          (readFile e (pathForDomain e (getStableDomainPath e domains) [''certificate.crt'']))
          (\<lambda>c. andThen
             (if getCaBuffer opts
              then andThen (readFile e (rootCACertPath e)) (\<lambda>b. done_with (Some b))
              else done_with None)
             (\<lambda>caBuffer.
                done_with
                  \<lparr>key = k, cert = c, ca = caBuffer,
                   caPath = (if getCaPath opts then Some (rootCACertPath e) else None)\<rparr>)))"

text \<open>The checks that \<open>certificateFor\<close> makes before it touches anything.\<close>

definition passesChecks :: "env \<Rightarrow> string list \<Rightarrow> bool" where
  "passesChecks e domains =
     ((\<forall>d\<in>set domains. d = ''localhost'' \<or> isValidDomain e d) \<and>
      (isMac e \<or> isLinux e \<or> isWindows e) \<and> commandExists e ''openssl'')"

text \<open>An action that fails with an external failure only.\<close>

definition onlyExternal :: "'a action \<Rightarrow> bool" where
  "onlyExternal m = (\<forall>w err. fst (m w) = Inl err \<longrightarrow> (\<exists>msg. err = ExternalFailure msg))"

text \<open>An action that only adds events of \<open>S\<close> to the trace.\<close>

definition emits :: "'a action \<Rightarrow> event set \<Rightarrow> bool" where
  "emits m S = (\<forall>w. \<exists>evs. trace (snd (m w)) = trace w @ evs \<and> set evs \<subseteq> S)"

text \<open>An action that leaves the paths of \<open>P\<close> as they are.\<close>

definition preserves :: "'a action \<Rightarrow> path set \<Rightarrow> bool" where
  "preserves m P = (\<forall>w. \<forall>p\<in>P. files (snd (m w)) p = files w p)"

text \<open>The repair step and the hosts-file helper leave the paths of \<open>P\<close> as they are.\<close>

definition repairAndHostsLeave :: "env \<Rightarrow> path set \<Rightarrow> bool" where
  "repairAndHostsLeave e P =
     (\<forall>p\<in>P.
        (\<forall>opts fs. snd (ensureCACertReadable_impl e opts fs) p = fs p) \<and>
        (\<forall>d fs. addDomainToHostFileIfMissing_impl e d fs p = fs p))"

text \<open>
  The credential scope, the certificate configuration and the revoking OpenSSL subprocess
  leave the paths of \<open>P\<close> as they are.
\<close>

definition revocationLeaves :: "env \<Rightarrow> path set \<Rightarrow> bool" where
  "revocationLeaves e P =
     (\<forall>p\<in>P.
        (\<forall>fs. snd (acquireCredentials_impl e fs) p = fs p) \<and>
        (\<forall>fs. releaseCredentials_impl e fs p = fs p) \<and>
        (\<forall>ds fs. snd (writeCertificateConfig_impl e ds fs) p = fs p) \<and>
        (\<forall>q fs. removeConfig_impl e q fs p = fs p) \<and>
        (\<forall>config crt caKey caCert fs.
           snd (openssl_tool e [''ca'', ''-config'', config, ''-revoke'', crt,
                                ''-keyfile'', caKey, ''-cert'', caCert] fs) p = fs p))"

subsection \<open>Facts about sequencing\<close>

lemma andThen_Inr: "m w = (Inr x, w') \<Longrightarrow> andThen m f w = f x w'"
  by (simp add: andThen_def)

lemma andThen_Inl: "m w = (Inl err, w') \<Longrightarrow> andThen m f w = (Inl err, w')"
  by (simp add: andThen_def)

lemma andThen_cases:
  assumes "andThen m f w = (res, w')"
  obtains err where "m w = (Inl err, w')" "res = Inl err"
        | x w1 where "m w = (Inr x, w1)" "f x w1 = (res, w')"
  using assms unfolding andThen_def by (auto split: prod.splits sum.splits)

lemma certificateFor_steps:
  "certificateFor e rd opts =
     andThen (validateDomains e (toDomains rd))
       (\<lambda>_. if \<not> isMac e \<and> \<not> isLinux e \<and> \<not> isWindows e
             then throw (PlatformNotSupported (platform e))
             else if \<not> commandExists e ''openssl'' then throw OpenSSLNotFound
             else andThen (caStep e opts)
                    (\<lambda>_. andThen (domainStep e (toDomains rd))
                       (\<lambda>_. andThen (hostsStep e opts (toDomains rd))
                          (\<lambda>_. returnStep e opts (toDomains rd)))))"
  unfolding certificateFor_def Let_def caStep_def [abs_def] domainStep_def [abs_def]
    hostsStep_def returnStep_def
  by (rule refl)

subsection \<open>Validation\<close>

lemma validateDomains_rejects:
  "d \<in> set ds \<Longrightarrow> d \<noteq> ''localhost'' \<Longrightarrow> \<not> isValidDomain e d \<Longrightarrow>
   \<exists>d'. d' \<in> set ds \<and> d' \<noteq> ''localhost'' \<and> \<not> isValidDomain e d' \<and>
        validateDomains e ds w = (Inl (InvalidDomain d'), w)"
proof (induction ds)
  case Nil
  then show ?case by simp
next
  case (Cons a ds)
  show ?case
  proof (cases "a \<noteq> ''localhost'' \<and> \<not> isValidDomain e a")
    case True
    then have "validateDomains e (a # ds) w = (Inl (InvalidDomain a), w)"
      by (simp add: throw_def)
    with True show ?thesis by auto
  next
    case False
    with Cons.prems have "d \<in> set ds" by auto
    from Cons.IH [OF this Cons.prems(2,3)] obtain d' where
      "d' \<in> set ds" "d' \<noteq> ''localhost''" "\<not> isValidDomain e d'"
      "validateDomains e ds w = (Inl (InvalidDomain d'), w)" by blast
    with False show ?thesis by auto
  qed
qed

lemma validateDomains_accepts:
  "\<forall>d\<in>set ds. d = ''localhost'' \<or> isValidDomain e d \<Longrightarrow> validateDomains e ds w = (Inr (), w)"
  by (induction ds) (auto simp: done_with_def)

lemma validateDomains_Inr:
  "validateDomains e ds w = (Inr x, w') \<Longrightarrow>
   w' = w \<and> (\<forall>d\<in>set ds. d = ''localhost'' \<or> isValidDomain e d)"
  by (induction ds) (auto simp: done_with_def throw_def split: if_splits)

lemma certificateFor_checked:
  "passesChecks e (toDomains rd) \<Longrightarrow>
   certificateFor e rd opts w =
     andThen (caStep e opts)
       (\<lambda>_. andThen (domainStep e (toDomains rd))
          (\<lambda>_. andThen (hostsStep e opts (toDomains rd))
             (\<lambda>_. returnStep e opts (toDomains rd)))) w"
  unfolding certificateFor_steps passesChecks_def
  by (auto simp: andThen_def validateDomains_accepts)

lemma certificateFor_Inr_checked:
  assumes "certificateFor e rd opts w = (Inr r, w')"
  shows "passesChecks e (toDomains rd)"
proof -
  from assms obtain x w1 where v: "validateDomains e (toDomains rd) w = (Inr x, w1)"
    unfolding certificateFor_steps by (auto elim!: andThen_cases)
  from validateDomains_Inr [OF v] have w1: "w1 = w"
    and ok: "\<forall>d\<in>set (toDomains rd). d = ''localhost'' \<or> isValidDomain e d" by auto
  from assms v have "isMac e \<or> isLinux e \<or> isWindows e" "commandExists e ''openssl''"
    unfolding certificateFor_steps
    by (auto simp: andThen_def throw_def split: if_splits)
  with ok show ?thesis by (simp add: passesChecks_def)
qed

subsection \<open>Which errors an action can raise\<close>

lemma onlyExternal_external: "onlyExternal (external ev f)"
  by (auto simp: onlyExternal_def external_def split: prod.splits sum.splits)

lemma onlyExternal_external_total: "onlyExternal (external_total ev f)"
  by (simp add: onlyExternal_def external_total_def)

lemma onlyExternal_done_with: "onlyExternal (done_with x)"
  by (simp add: onlyExternal_def done_with_def)

lemma onlyExternal_andThen:
  "onlyExternal m \<Longrightarrow> (\<And>x. onlyExternal (f x)) \<Longrightarrow> onlyExternal (andThen m f)"
  unfolding onlyExternal_def andThen_def
  by (auto split: prod.splits sum.splits) (metis fst_conv)+

lemma onlyExternal_readFile: "onlyExternal (readFile e p)"
  by (auto simp: onlyExternal_def readFile_def split: option.splits node.splits)

lemma onlyExternal_if:
  "onlyExternal m \<Longrightarrow> onlyExternal n \<Longrightarrow> onlyExternal (if b then m else n)"
  by simp

lemma onlyExternal_openssl: "onlyExternal (openssl e args)"
  by (simp add: openssl_def onlyExternal_external)

lemma onlyExternal_withCredentials:
  "(\<And>creds. onlyExternal (cb creds)) \<Longrightarrow> onlyExternal (withCertificateAuthorityCredentials e cb)"
  unfolding withCertificateAuthorityCredentials_def
  apply (rule onlyExternal_andThen [OF onlyExternal_external])
  apply (auto simp: onlyExternal_def external_total_def split: prod.splits)
  by (metis fst_conv)

lemma onlyExternal_withCertificateConfig:
  "(\<And>p. onlyExternal (cb p)) \<Longrightarrow> onlyExternal (withDomainCertificateConfig e ds cb)"
  unfolding withDomainCertificateConfig_def
  by (intro onlyExternal_andThen onlyExternal_external onlyExternal_external_total)

lemma onlyExternal_withSigningRequestConfig:
  "(\<And>p. onlyExternal (cb p)) \<Longrightarrow> onlyExternal (withDomainSigningRequestConfig e ds cb)"
  unfolding withDomainSigningRequestConfig_def
  by (intro onlyExternal_andThen onlyExternal_external onlyExternal_external_total)

lemma onlyExternal_generateKey: "onlyExternal (generateKey e p)"
  unfolding generateKey_def chmod_def
  by (intro onlyExternal_andThen onlyExternal_external onlyExternal_openssl)

lemma onlyExternal_generateDomainCertificate: "onlyExternal (generateDomainCertificate e ds)"
  unfolding generateDomainCertificate_def Let_def mkdirp_def
  by (intro onlyExternal_andThen onlyExternal_external onlyExternal_openssl
      onlyExternal_generateKey onlyExternal_withSigningRequestConfig
      onlyExternal_withCredentials onlyExternal_withCertificateConfig)
     (auto intro!: onlyExternal_withCertificateConfig onlyExternal_openssl)

lemma onlyExternal_addDomainsToHostFile: "onlyExternal (addDomainsToHostFile e ds)"
  by (induction ds)
     (auto intro!: onlyExternal_andThen onlyExternal_external_total onlyExternal_done_with)

lemma onlyExternal_caStep: "onlyExternal (caStep e opts)"
  using onlyExternal_external [of InstallCA "installCertificateAuthority_impl e opts"]
    onlyExternal_external [of EnsureCAReadable "ensureCACertReadable_impl e opts"]
    onlyExternal_done_with [of "()"]
  by (simp add: onlyExternal_def caStep_def installCertificateAuthority_def
      ensureCACertReadable_def)

lemma onlyExternal_domainStep: "onlyExternal (domainStep e domains)"
  using onlyExternal_generateDomainCertificate [of e domains] onlyExternal_done_with [of "()"]
  by (simp add: onlyExternal_def domainStep_def)

lemma onlyExternal_returnStep: "onlyExternal (returnStep e opts domains)"
  unfolding returnStep_def
  by (intro onlyExternal_andThen onlyExternal_if onlyExternal_done_with onlyExternal_readFile)

lemma onlyExternal_after_checks:
  "onlyExternal (andThen (caStep e opts)
       (\<lambda>_. andThen (domainStep e domains)
          (\<lambda>_. andThen (hostsStep e opts domains)
             (\<lambda>_. returnStep e opts domains))))"
  unfolding hostsStep_def
  by (intro onlyExternal_andThen onlyExternal_caStep onlyExternal_domainStep
      onlyExternal_if onlyExternal_addDomainsToHostFile onlyExternal_done_with
      onlyExternal_returnStep)

text \<open>
  C3. A domain that is not \<open>localhost\<close> and fails the syntax check makes
  \<open>certificateFor\<close> raise the invalid-domain error for such a domain, and the world it
  leaves is the world it was given: no file written, no call traced. A list in which every
  domain is \<open>localhost\<close> or passes the check never raises that error.
\<close>

theorem certificateFor_invalid_domain:
  "((\<exists>d\<in>set (toDomains rd). d \<noteq> ''localhost'' \<and> \<not> isValidDomain e d) \<longrightarrow>
      (\<exists>d\<in>set (toDomains rd). d \<noteq> ''localhost'' \<and> \<not> isValidDomain e d \<and>
         certificateFor e rd opts w = (Inl (InvalidDomain d), w))) \<and>
   ((\<forall>d\<in>set (toDomains rd). d = ''localhost'' \<or> isValidDomain e d) \<longrightarrow>
      (\<forall>d. fst (certificateFor e rd opts w) \<noteq> Inl (InvalidDomain d)))"
proof (intro conjI impI)
  assume "\<exists>d\<in>set (toDomains rd). d \<noteq> ''localhost'' \<and> \<not> isValidDomain e d"
  then obtain d where "d \<in> set (toDomains rd)" "d \<noteq> ''localhost''" "\<not> isValidDomain e d"
    by blast
  from validateDomains_rejects [OF this, of w] obtain d' where
    d': "d' \<in> set (toDomains rd)" "d' \<noteq> ''localhost''" "\<not> isValidDomain e d'"
    and "validateDomains e (toDomains rd) w = (Inl (InvalidDomain d'), w)" by blast
  then have "certificateFor e rd opts w = (Inl (InvalidDomain d'), w)"
    by (simp add: certificateFor_steps andThen_def)
  with d' show "\<exists>d\<in>set (toDomains rd). d \<noteq> ''localhost'' \<and> \<not> isValidDomain e d \<and>
         certificateFor e rd opts w = (Inl (InvalidDomain d), w)" by blast
next
  assume ok: "\<forall>d\<in>set (toDomains rd). d = ''localhost'' \<or> isValidDomain e d"
  show "\<forall>d. fst (certificateFor e rd opts w) \<noteq> Inl (InvalidDomain d)"
  proof
    fix d
    have v: "validateDomains e (toDomains rd) w = (Inr (), w)"
      using ok by (rule validateDomains_accepts)
    have "\<And>m :: certificate_data action. onlyExternal m \<Longrightarrow> fst (m w) \<noteq> Inl (InvalidDomain d)"
      unfolding onlyExternal_def by (metis error.distinct(5))
    from this [OF onlyExternal_after_checks [of e opts "toDomains rd"]]
    show "fst (certificateFor e rd opts w) \<noteq> Inl (InvalidDomain d)"
      unfolding certificateFor_steps by (simp add: andThen_def [of "validateDomains e (toDomains rd)"] v throw_def)
  qed
qed

theorem certificateFor_invalid_domain_witness:
  "certificateFor sample_env (Many [''a.test'', ''*.example.com'']) noOptions fresh
     = (Inl (InvalidDomain ''*.example.com''), fresh) \<and>
   fst (certificateFor sample_env (One ''localhost'') noOptions fresh)
     \<noteq> Inl (InvalidDomain ''localhost'')"
  using certificateFor_invalid_domain
    [of "Many [''a.test'', ''*.example.com'']" sample_env noOptions fresh]
    certificateFor_invalid_domain [of "One ''localhost''" sample_env noOptions fresh]
  by (simp add: sample_env_def)

subsection \<open>The storage path\<close>

lemma sort_permutation: "mset xs = mset ys \<Longrightarrow> sort xs = sort (ys :: string list)"
  by (rule properties_for_sort) simp_all

text \<open>
  C2. Two lists of domains that are permutations of each other have the same stable domain
  path, hence the same directory and the same files below it, and \<open>hasCertificateFor\<close>
  answers the same for both.
\<close>

theorem getStableDomainPath_permutation:
  "mset ds = mset ds' \<Longrightarrow>
   getStableDomainPath e ds = getStableDomainPath e ds' \<and>
   (\<forall>segments. pathForDomain e (getStableDomainPath e ds) segments
              = pathForDomain e (getStableDomainPath e ds') segments) \<and>
   hasCertificateFor e (Many ds) w = hasCertificateFor e (Many ds') w"
  by (simp add: getStableDomainPath_def hasCertificateFor_def sort_permutation [of ds ds'])

theorem getStableDomainPath_permutation_witness:
  "getStableDomainPath sample_env [''a.test'', ''b.test'']
     = getStableDomainPath sample_env [''b.test'', ''a.test''] \<and>
   pathForDomain sample_env (getStableDomainPath sample_env [''a.test'', ''b.test''])
       [''certificate.crt'']
     = pathForDomain sample_env (getStableDomainPath sample_env [''b.test'', ''a.test''])
       [''certificate.crt'']"
  using getStableDomainPath_permutation
    [of "[''a.test'', ''b.test'']" "[''b.test'', ''a.test'']" sample_env fresh]
  by simp

subsection \<open>The mode of a generated key\<close>

lemma generateKey_mode:
  assumes "generateKey e filename w = (Inr (), w')"
  shows "files w' filename = Some Dir \<or> (\<exists>c. files w' filename = Some (File c 400))"
  using assms
  by (auto simp: generateKey_def andThen_def chmod_def external_def
      split: prod.splits sum.splits option.splits node.splits)

text \<open>
  C5. \<open>generateKey\<close> on the sample platform: the subprocess is asked for a 2048-bit RSA
  key in the file, and the file ends with the mode that is the number 400, which is 620
  in octal: read and write for the owner, write for the group. The mode is not
  owner-read-only.
\<close>

theorem generateKey_mode_is_decimal_400:
  "generateKey sample_env ''/cfg/domains/a.test/private-key.key'' fresh =
     (Inr (),
      \<lparr>files = [''/cfg/domains/a.test/private-key.key'' \<mapsto> File ''RSA PRIVATE KEY'' 400],
       trace = [Openssl [''genrsa'', ''-out'', ''/cfg/domains/a.test/private-key.key'', ''2048''],
                Chmod ''/cfg/domains/a.test/private-key.key'' 400]\<rparr>) \<and>
   ownerBits 400 = 6 \<and> groupBits 400 = 2 \<and> otherBits 400 = 0 \<and> \<not> ownerReadOnly 400"
  by (simp add: generateKey_def andThen_def openssl_def chmod_def external_def
      sample_env_def sample_openssl_def fresh_def
      ownerBits_def groupBits_def otherBits_def ownerReadOnly_def)

subsection \<open>What an action adds to the trace\<close>

lemma emitsI:
  "(\<And>w. \<exists>evs. trace (snd (m w)) = trace w @ evs \<and> set evs \<subseteq> S) \<Longrightarrow> emits m S"
  by (simp add: emits_def)

lemma emitsD:
  "emits m S \<Longrightarrow> m w = (r, w') \<Longrightarrow> \<exists>evs. trace w' = trace w @ evs \<and> set evs \<subseteq> S"
  unfolding emits_def by (metis snd_conv)

lemma emits_mono: "emits m S \<Longrightarrow> S \<subseteq> T \<Longrightarrow> emits m T"
  unfolding emits_def by (meson subset_trans)

lemma emits_external: "ev \<in> S \<Longrightarrow> emits (external ev f) S"
  by (auto simp: emits_def external_def split: prod.splits sum.splits)

lemma emits_external_total: "ev \<in> S \<Longrightarrow> emits (external_total ev f) S"
  by (simp add: emits_def external_total_def)

lemma emits_done_with: "emits (done_with x) S"
  by (simp add: emits_def done_with_def)

lemma emits_readFile: "emits (readFile e p) S"
  by (auto simp: emits_def readFile_def split: option.splits node.splits)

lemma emits_andThen:
  assumes m: "emits m S" and f: "\<And>x. emits (f x) S"
  shows "emits (andThen m f) S"
proof (rule emitsI)
  fix w
  obtain r w1 where mw: "m w = (r, w1)" by (cases "m w")
  from emitsD [OF m mw] obtain evs where evs: "trace w1 = trace w @ evs" "set evs \<subseteq> S"
    by blast
  show "\<exists>evs. trace (snd (andThen m f w)) = trace w @ evs \<and> set evs \<subseteq> S"
  proof (cases r)
    case (Inl err)
    with mw evs show ?thesis by (auto simp: andThen_def)
  next
    case (Inr x)
    obtain r2 w2 where fw: "f x w1 = (r2, w2)" by (cases "f x w1")
    from emitsD [OF f fw] obtain evs2 where "trace w2 = trace w1 @ evs2" "set evs2 \<subseteq> S"
      by blast
    with evs have "trace w2 = trace w @ (evs @ evs2)" "set (evs @ evs2) \<subseteq> S" by auto
    with Inr mw fw show ?thesis unfolding andThen_def by (simp only: prod.case sum.case snd_conv) blast
  qed
qed

lemma emits_if: "emits m S \<Longrightarrow> emits n S \<Longrightarrow> emits (if b then m else n) S"
  by simp

lemma emits_openssl: "Openssl args \<in> S \<Longrightarrow> emits (openssl e args) S"
  by (simp add: openssl_def emits_external)

lemma emits_withCredentials:
  assumes "AcquireCredentials \<in> S" "ReleaseCredentials \<in> S" and cb: "\<And>creds. emits (cb creds) S"
  shows "emits (withCertificateAuthorityCredentials e cb) S"
  unfolding withCertificateAuthorityCredentials_def
proof (rule emits_andThen [OF emits_external [OF assms(1)]], rule emitsI)
  fix creds w
  obtain r w1 where c: "cb creds w = (r, w1)" by (cases "cb creds w")
  from emitsD [OF cb c] obtain evs where "trace w1 = trace w @ evs" "set evs \<subseteq> S" by blast
  with assms(2) have "trace w1 @ [ReleaseCredentials] = trace w @ (evs @ [ReleaseCredentials])"
    "set (evs @ [ReleaseCredentials]) \<subseteq> S" by auto
  then show "\<exists>evs. trace (snd (case cb creds w of
                (r, w') \<Rightarrow>
                  (case external_total ReleaseCredentials (releaseCredentials_impl e) w' of
                     (_, w'') \<Rightarrow> (r, w'')))) = trace w @ evs \<and> set evs \<subseteq> S"
    unfolding c external_total_def by (simp only: prod.case snd_conv world.simps) blast
qed

lemma emits_withCertificateConfig:
  assumes "WriteCertificateConfig ds \<in> S" "\<And>p. RemoveConfig p \<in> S" "\<And>p. emits (cb p) S"
  shows "emits (withDomainCertificateConfig e ds cb) S"
  unfolding withDomainCertificateConfig_def
  by (intro emits_andThen emits_external emits_external_total assms)

lemma emits_withSigningRequestConfig:
  assumes "WriteSigningRequestConfig ds \<in> S" "\<And>p. RemoveConfig p \<in> S" "\<And>p. emits (cb p) S"
  shows "emits (withDomainSigningRequestConfig e ds cb) S"
  unfolding withDomainSigningRequestConfig_def
  by (intro emits_andThen emits_external emits_external_total assms)

lemma emits_addDomainsToHostFile: "emits (addDomainsToHostFile e ds) (AddHost ` set ds)"
proof (induction ds)
  case Nil
  show ?case by (simp add: emits_done_with)
next
  case (Cons d ds)
  have "emits (addDomainsToHostFile e ds) (AddHost ` set (d # ds))"
    by (rule emits_mono [OF Cons.IH]) auto
  then show ?case
    by (auto intro!: emits_andThen emits_external_total)
qed

lemma emits_hostsStep: "emits (hostsStep e opts ds) (AddHost ` set ds)"
  by (simp add: hostsStep_def emits_addDomainsToHostFile emits_done_with)

lemma emits_caStep: "emits (caStep e opts) {InstallCA, EnsureCAReadable}"
  using emits_external [of InstallCA "{InstallCA, EnsureCAReadable}" "installCertificateAuthority_impl e opts"]
    emits_external [of EnsureCAReadable "{InstallCA, EnsureCAReadable}" "ensureCACertReadable_impl e opts"]
    emits_done_with [of "()" "{InstallCA, EnsureCAReadable}"]
  by (simp add: emits_def caStep_def installCertificateAuthority_def ensureCACertReadable_def)

lemma returnStep_world: "returnStep e opts ds w = (r, w') \<Longrightarrow> w' = w"
  by (auto simp: returnStep_def andThen_def readFile_def done_with_def
      split: prod.splits sum.splits option.splits node.splits if_splits)

lemma returnStep_Inr:
  assumes "returnStep e opts ds w = (Inr r, w')"
  shows "\<exists>mk mc.
           files w (pathForDomain e (getStableDomainPath e ds) [''private-key.key''])
             = Some (File (key r) mk) \<and>
           files w (pathForDomain e (getStableDomainPath e ds) [''certificate.crt''])
             = Some (File (cert r) mc)"
  using assms
  by (auto simp: returnStep_def andThen_def readFile_def done_with_def
      split: prod.splits sum.splits option.splits node.splits if_splits)

subsection \<open>What an action leaves on disk\<close>

lemma preservesD: "preserves m P \<Longrightarrow> m w = (r, w') \<Longrightarrow> p \<in> P \<Longrightarrow> files w' p = files w p"
  unfolding preserves_def by (metis snd_conv)

lemma preserves_external:
  "(\<And>fs p. p \<in> P \<Longrightarrow> snd (f fs) p = fs p) \<Longrightarrow> preserves (external ev f) P"
  unfolding preserves_def external_def
  by (auto split: prod.splits sum.splits) (metis snd_conv)+

lemma preserves_external_total:
  "(\<And>fs p. p \<in> P \<Longrightarrow> f fs p = fs p) \<Longrightarrow> preserves (external_total ev f) P"
  by (simp add: preserves_def external_total_def)

lemma preserves_done_with: "preserves (done_with x) P"
  by (simp add: preserves_def done_with_def)

lemma preserves_andThen:
  assumes m: "preserves m P" and f: "\<And>x. preserves (f x) P"
  shows "preserves (andThen m f) P"
  unfolding preserves_def
proof (intro allI ballI)
  fix w p
  assume p: "p \<in> P"
  obtain r w1 where mw: "m w = (r, w1)" by (cases "m w")
  note first = preservesD [OF m mw p]
  show "files (snd (andThen m f w)) p = files w p"
  proof (cases r)
    case (Inl err)
    with mw first show ?thesis by (simp add: andThen_def)
  next
    case (Inr x)
    obtain r2 w2 where fw: "f x w1 = (r2, w2)" by (cases "f x w1")
    from preservesD [OF f fw p] first Inr mw fw show ?thesis by (simp add: andThen_def)
  qed
qed

subsection \<open>A delivered certificate is on disk\<close>

lemma certificateFor_delivers:
  assumes "certificateFor e rd opts w = (Inr r, w')"
  shows "\<exists>mk mc.
           files w' (pathForDomain e (getStableDomainPath e (toDomains rd)) [''private-key.key''])
             = Some (File (key r) mk) \<and>
           files w' (pathForDomain e (getStableDomainPath e (toDomains rd)) [''certificate.crt''])
             = Some (File (cert r) mc)"
proof -
  have checks: "passesChecks e (toDomains rd)"
    using assms by (rule certificateFor_Inr_checked)
  from assms obtain w3 where ret: "returnStep e opts (toDomains rd) w3 = (Inr r, w')"
    unfolding certificateFor_checked [OF checks]
    by (elim andThen_cases) auto
  from returnStep_world [OF ret] returnStep_Inr [OF ret] show ?thesis by simp
qed

subsection \<open>The calls of generation and of revocation\<close>

lemma emits_generateKey:
  "Openssl [''genrsa'', ''-out'', filename, ''2048''] \<in> S \<Longrightarrow> Chmod filename 400 \<in> S \<Longrightarrow>
   emits (generateKey e filename) S"
  unfolding generateKey_def chmod_def
  by (intro emits_andThen emits_openssl emits_external)

lemma emits_generateDomainCertificate:
  "emits (generateDomainCertificate e ds)
     (- ({InstallCA, EnsureCAReadable} \<union> range Rimraf \<union> range AddHost))"
  unfolding generateDomainCertificate_def Let_def mkdirp_def split_def
  by (intro emits_andThen emits_external emits_generateKey emits_withSigningRequestConfig
      emits_withCredentials emits_withCertificateConfig emits_openssl) auto

lemma emits_revokeDomainCertificate:
  "emits (revokeDomainCertificate e ds)
     (- ({InstallCA, EnsureCAReadable} \<union> range Rimraf \<union> range AddHost))"
  unfolding revokeDomainCertificate_def Let_def split_def
  by (intro emits_withCredentials emits_withCertificateConfig emits_openssl) auto

lemma emits_domainStep:
  "emits (domainStep e ds) (- ({InstallCA, EnsureCAReadable} \<union> range Rimraf \<union> range AddHost))"
  using emits_generateDomainCertificate [of e ds]
    emits_done_with [of "()" "- ({InstallCA, EnsureCAReadable} \<union> range Rimraf \<union> range AddHost)"]
  by (simp add: emits_def domainStep_def)

lemma emits_returnStep: "emits (returnStep e opts ds) S"
  unfolding returnStep_def
  by (intro emits_andThen emits_if emits_readFile emits_done_with)

lemma emits_after_caStep:
  "emits (andThen (domainStep e ds)
            (\<lambda>_. andThen (hostsStep e opts ds) (\<lambda>_. returnStep e opts ds)))
     (- {InstallCA, EnsureCAReadable})"
proof (intro emits_andThen)
  show "emits (domainStep e ds) (- {InstallCA, EnsureCAReadable})"
    by (rule emits_mono [OF emits_domainStep]) auto
  show "emits (hostsStep e opts ds) (- {InstallCA, EnsureCAReadable})"
    by (rule emits_mono [OF emits_hostsStep]) auto
  show "emits (returnStep e opts ds) (- {InstallCA, EnsureCAReadable})" for x :: unit
    by (rule emits_returnStep)
qed

text \<open>
  C4, as the code has it. In a call of \<open>certificateFor\<close> that passes the checks and
  finds the root CA key on disk, the ensure-readable step runs exactly when
  \<^verbatim>\<open>getCaBuffer\<close> or \<^verbatim>\<open>getCaPath\<close> is set, and then once, as the first call
  of the run; with neither option it does not run.
\<close>

theorem ensureCACertReadable_when_ca_requested:
  assumes "passesChecks e (toDomains rd)"
    and "exists (files w) (rootCAKeyPath e)"
  shows "\<exists>evs. trace (snd (certificateFor e rd opts w)) = trace w @ evs \<and>
           (EnsureCAReadable \<in> set evs \<longleftrightarrow> getCaBuffer opts \<or> getCaPath opts) \<and>
           (getCaBuffer opts \<or> getCaPath opts \<longrightarrow>
              (\<exists>rest. evs = EnsureCAReadable # rest \<and> EnsureCAReadable \<notin> set rest))"
proof -
  let ?rest = "andThen (domainStep e (toDomains rd))
            (\<lambda>_. andThen (hostsStep e opts (toDomains rd)) (\<lambda>_. returnStep e opts (toDomains rd)))"
  have cf: "certificateFor e rd opts w = andThen (caStep e opts) (\<lambda>_. ?rest) w"
    by (rule certificateFor_checked [OF assms(1)])
  obtain ra wa where ca: "caStep e opts w = (ra, wa)" by (cases "caStep e opts w")
  obtain rb wb where rest: "?rest wa = (rb, wb)" by (cases "?rest wa")
  from emitsD [OF emits_after_caStep rest] obtain evs2 where
    evs2: "trace wb = trace wa @ evs2" "EnsureCAReadable \<notin> set evs2" by auto
  show ?thesis
  proof (cases "getCaBuffer opts \<or> getCaPath opts")
    case False
    with ca assms(2) have "ra = Inr ()" "wa = w"
      by (auto simp: caStep_def done_with_def)
    with cf ca rest have "snd (certificateFor e rd opts w) = wb"
      by (simp add: andThen_def)
    with evs2 \<open>wa = w\<close> False show ?thesis by auto
  next
    case True
    with ca assms(2) have "external EnsureCAReadable (ensureCACertReadable_impl e opts) w = (ra, wa)"
      by (auto simp: caStep_def ensureCACertReadable_def)
    then have wa: "trace wa = trace w @ [EnsureCAReadable]"
      by (auto simp: external_def split: prod.splits sum.splits)
    show ?thesis
    proof (cases ra)
      case (Inl err)
      with cf ca have "snd (certificateFor e rd opts w) = wa"
        by (simp add: andThen_def)
      with wa True show ?thesis by auto
    next
      case (Inr u)
      with cf ca rest have "snd (certificateFor e rd opts w) = wb"
        by (simp add: andThen_def)
      with wa evs2 True show ?thesis by auto
    qed
  qed
qed

lemma sample_passesChecks_localhost: "passesChecks sample_env (toDomains (One ''localhost''))"
  by (simp add: passesChecks_def sample_env_def)

lemma sample_installed_ca: "exists (files installed) (rootCAKeyPath sample_env)"
  by (simp add: exists_def installed_def sample_env_def)

lemma sample_installed_run:
  "trace (snd (certificateFor sample_env (One ''localhost'') noOptions installed))
     = [Mkdirp ''/cfg/domains/localhost'',
        Openssl [''genrsa'', ''-out'', ''/cfg/domains/localhost/private-key.key'', ''2048''],
        Chmod ''/cfg/domains/localhost/private-key.key'' 400,
        WriteSigningRequestConfig [''localhost''],
        Openssl [''req'', ''-new'', ''-config'', ''/tmp/csr.conf'', ''-key'',
                 ''/cfg/domains/localhost/private-key.key'', ''-out'',
                 ''/cfg/domains/localhost/certificate-signing-request.csr''],
        RemoveConfig ''/tmp/csr.conf'', AcquireCredentials,
        WriteCertificateConfig [''localhost''],
        Openssl [''ca'', ''-config'', ''/tmp/cert.conf'', ''-in'',
                 ''/cfg/domains/localhost/certificate-signing-request.csr'',
                 ''-out'', ''/cfg/domains/localhost/certificate.crt'', ''-keyfile'',
                 ''/tmp/ca.key'', ''-cert'', ''/tmp/ca.crt'', ''-days'', ''825'', ''-batch''],
        RemoveConfig ''/tmp/cert.conf'', ReleaseCredentials, AddHost ''localhost'']"
  by code_simp

text \<open>
  C4, as the claim has it, fails: with the root CA key on disk and no option set, the run
  makes no ensure-readable call.
\<close>

theorem ensureCACertReadable_skipped_counterexample:
  "exists (files installed) (rootCAKeyPath sample_env) \<and>
   EnsureCAReadable \<notin>
     set (trace (snd (certificateFor sample_env (One ''localhost'') noOptions installed)))"
  by (simp add: sample_installed_ca sample_installed_run)

theorem ensureCACertReadable_when_ca_requested_witness:
  "EnsureCAReadable \<in> set (trace (snd (certificateFor sample_env (One ''localhost'')
       \<lparr>getCaBuffer = True, getCaPath = False, skipCertutilInstall = False, skipHostsFile = False\<rparr>
       installed))) \<and>
   EnsureCAReadable \<notin> set (trace (snd (certificateFor sample_env (One ''localhost'') noOptions
       installed)))"
  using ensureCACertReadable_when_ca_requested
      [OF sample_passesChecks_localhost sample_installed_ca,
       of "\<lparr>getCaBuffer = True, getCaPath = False, skipCertutilInstall = False, skipHostsFile = False\<rparr>"]
    ensureCACertReadable_when_ca_requested
      [OF sample_passesChecks_localhost sample_installed_ca, of noOptions]
  by (auto simp: noOptions_def installed_def)

subsection \<open>The trace of a run that succeeds\<close>

lemma external_trace: "external ev f w = (r, w') \<Longrightarrow> trace w' = trace w @ [ev]"
  by (auto simp: external_def split: prod.splits sum.splits)

lemma external_Inr: "external ev f w = (Inr x, w') \<Longrightarrow> fst (f (files w)) = Inr x"
  by (auto simp: external_def split: prod.splits sum.splits)

lemma openssl_trace: "openssl e args w = (r, w') \<Longrightarrow> trace w' = trace w @ [Openssl args]"
  unfolding openssl_def by (rule external_trace)

lemma withCredentials_Inr:
  assumes "withCertificateAuthorityCredentials e cb w = (Inr u, w')"
  obtains k c w1 w2 where
    "fst (acquireCredentials_impl e (files w)) = Inr (k, c)"
    "trace w1 = trace w @ [AcquireCredentials]"
    "cb (k, c) w1 = (Inr u, w2)"
    "trace w' = trace w2 @ [ReleaseCredentials]"
proof -
  from assms obtain creds w1 where
    acq: "external AcquireCredentials (acquireCredentials_impl e) w = (Inr creds, w1)"
    and body: "(case cb creds w1 of
            (r, w') \<Rightarrow>
              (case external_total ReleaseCredentials (releaseCredentials_impl e) w' of
                 (_, w'') \<Rightarrow> (r, w''))) = (Inr u, w')"
    unfolding withCertificateAuthorityCredentials_def by (elim andThen_cases) auto
  obtain r w2 where cb: "cb creds w1 = (r, w2)" by (cases "cb creds w1")
  with body have "r = Inr u" "trace w' = trace w2 @ [ReleaseCredentials]"
    by (auto simp: external_total_def)
  with cb external_trace [OF acq] external_Inr [OF acq] that [of "fst creds" "snd creds" w1 w2]
  show thesis by simp
qed

lemma withCertificateConfig_Inr:
  assumes "withDomainCertificateConfig e ds cb w = (Inr u, w')"
  obtains config x w1 w2 where
    "trace w1 = trace w @ [WriteCertificateConfig ds]"
    "cb config w1 = (Inr x, w2)"
    "trace w' = trace w2 @ [RemoveConfig config]"
proof -
  from assms obtain config w1 x w2 where
    wr: "external (WriteCertificateConfig ds) (writeCertificateConfig_impl e ds) w = (Inr config, w1)"
    and cb: "cb config w1 = (Inr x, w2)"
    and rm: "external_total (RemoveConfig config) (removeConfig_impl e config) w2 = (Inr u, w')"
    unfolding withDomainCertificateConfig_def by (elim andThen_cases) auto
  from rm have "trace w' = trace w2 @ [RemoveConfig config]"
    by (auto simp: external_total_def)
  with external_trace [OF wr] cb that show thesis by blast
qed

lemma withSigningRequestConfig_Inr:
  assumes "withDomainSigningRequestConfig e ds cb w = (Inr u, w')"
  obtains config x w1 w2 where
    "trace w1 = trace w @ [WriteSigningRequestConfig ds]"
    "cb config w1 = (Inr x, w2)"
    "trace w' = trace w2 @ [RemoveConfig config]"
proof -
  from assms obtain config w1 x w2 where
    wr: "external (WriteSigningRequestConfig ds) (writeSigningRequestConfig_impl e ds) w = (Inr config, w1)"
    and cb: "cb config w1 = (Inr x, w2)"
    and rm: "external_total (RemoveConfig config) (removeConfig_impl e config) w2 = (Inr u, w')"
    unfolding withDomainSigningRequestConfig_def by (elim andThen_cases) auto
  from rm have "trace w' = trace w2 @ [RemoveConfig config]"
    by (auto simp: external_total_def)
  with external_trace [OF wr] cb that show thesis by blast
qed

lemma revokeDomainCertificate_Inr:
  assumes "revokeDomainCertificate e ds w = (Inr u, w')"
  shows "\<exists>config caKey caCert.
           trace w' = trace w @
             [AcquireCredentials, WriteCertificateConfig ds,
              Openssl [''ca'', ''-config'', config, ''-revoke'',
                       pathForDomain e (getStableDomainPath e ds) [''certificate.crt''],
                       ''-keyfile'', caKey, ''-cert'', caCert],
              RemoveConfig config, ReleaseCredentials]"
proof -
  let ?cert = "pathForDomain e (getStableDomainPath e ds) [''certificate.crt'']"
  from assms obtain k c w1 w2 where
    acq: "trace w1 = trace w @ [AcquireCredentials]"
    and cfg: "withDomainCertificateConfig e ds
               (\<lambda>config. openssl e [''ca'', ''-config'', config, ''-revoke'', ?cert,
                                    ''-keyfile'', k, ''-cert'', c]) w1 = (Inr u, w2)"
    and rel: "trace w' = trace w2 @ [ReleaseCredentials]"
    unfolding revokeDomainCertificate_def Let_def
    by (elim withCredentials_Inr) simp
  from cfg obtain config out w3 w4 where
    wr: "trace w3 = trace w1 @ [WriteCertificateConfig ds]"
    and run: "openssl e [''ca'', ''-config'', config, ''-revoke'', ?cert,
                        ''-keyfile'', k, ''-cert'', c] w3 = (Inr out, w4)"
    and rm: "trace w2 = trace w4 @ [RemoveConfig config]"
    by (elim withCertificateConfig_Inr)
  from acq wr openssl_trace [OF run] rm rel show ?thesis by simp
qed

lemma append_single_split:
  assumes "evs @ [a] = pre @ b # post" and "b \<notin> set evs"
  shows "pre = evs \<and> b = a \<and> post = []"
proof (cases post rule: rev_cases)
  case Nil
  with assms(1) have "evs @ [a] = (pre @ []) @ [b]" by simp
  then have "evs = pre @ [] \<and> a = b" by (simp only: append1_eq_conv)
  with Nil show ?thesis by simp
next
  case (snoc ys y)
  with assms(1) have "evs @ [a] = (pre @ b # ys) @ [y]" by simp
  then have "evs = pre @ b # ys" by (simp only: append1_eq_conv)
  with assms(2) show ?thesis by simp
qed

text \<open>
  C7. Wherever a run of \<open>removeDomain\<close> deletes, the calls traced before the deletion
  are those of a revocation that has returned without an exception: the credentials
  acquired, the configuration written, the \<^verbatim>\<open>ca -revoke\<close> subprocess run on the
  certificate of the domain set, the configuration removed, the credentials released.
  The deletion is the last call of the run and its path is the directory of the domain set.
\<close>

theorem removeDomain_revokes_before_deleting:
  assumes "removeDomain e rd w = (res, w')"
    and "trace w' = trace w @ pre @ Rimraf p # post"
  shows "(\<exists>w1. revokeDomainCertificate e (toDomains rd) w = (Inr (), w1) \<and>
            trace w1 = trace w @ pre) \<and>
         (\<exists>config caKey caCert.
            pre = [AcquireCredentials, WriteCertificateConfig (toDomains rd),
                   Openssl [''ca'', ''-config'', config, ''-revoke'',
                            pathForDomain e (getStableDomainPath e (toDomains rd))
                              [''certificate.crt''],
                            ''-keyfile'', caKey, ''-cert'', caCert],
                   RemoveConfig config, ReleaseCredentials]) \<and>
         post = [] \<and>
         p = pathForDomain e (getStableDomainPath e (toDomains rd)) [] \<and>
         res = Inr ()"
proof -
  let ?ds = "toDomains rd"
  let ?dir = "pathForDomain e (getStableDomainPath e ?ds) []"
  obtain rr w1 where rev: "revokeDomainCertificate e ?ds w = (rr, w1)"
    by (cases "revokeDomainCertificate e ?ds w")
  from emitsD [OF emits_revokeDomainCertificate rev] obtain evs where
    evs: "trace w1 = trace w @ evs" "Rimraf p \<notin> set evs" by auto
  show ?thesis
  proof (cases rr)
    case (Inl err)
    with assms(1) rev have "w' = w1"
      by (simp add: removeDomain_def Let_def andThen_def)
    with assms(2) evs show ?thesis by auto
  next
    case (Inr u)
    with assms(1) rev have "rimraf ?dir w1 = (res, w')"
      by (simp add: removeDomain_def Let_def andThen_def)
    then have res: "res = Inr ()" and "trace w' = trace w1 @ [Rimraf ?dir]"
      by (auto simp: rimraf_def external_total_def)
    with assms(2) evs(1) have "evs @ [Rimraf ?dir] = pre @ Rimraf p # post" by simp
    from append_single_split [OF this evs(2)] have
      split: "pre = evs" "p = ?dir" "post = []" by auto
    from rev Inr have rev': "revokeDomainCertificate e ?ds w = (Inr (), w1)" by simp
    from revokeDomainCertificate_Inr [OF rev'] evs(1) split(1) rev' res split(2,3)
    show ?thesis by auto
  qed
qed

lemma sample_removeDomain:
  "fst (removeDomain sample_env (One ''a.test'') issued) = Inr ()"
  "trace (snd (removeDomain sample_env (One ''a.test'') issued)) =
     [AcquireCredentials, WriteCertificateConfig [''a.test''],
      Openssl [''ca'', ''-config'', ''/tmp/cert.conf'', ''-revoke'',
               ''/cfg/domains/a.test/certificate.crt'',
               ''-keyfile'', ''/tmp/ca.key'', ''-cert'', ''/tmp/ca.crt''],
      RemoveConfig ''/tmp/cert.conf'', ReleaseCredentials,
      Rimraf ''/cfg/domains/a.test'']"
  by code_simp+

theorem removeDomain_revokes_before_deleting_witness:
  "fst (revokeDomainCertificate sample_env [''a.test''] issued) = Inr () \<and>
   fst (removeDomain sample_env (One ''a.test'') issued) = Inr () \<and>
   pathForDomain sample_env (getStableDomainPath sample_env [''a.test'']) []
     = ''/cfg/domains/a.test''"
proof -
  have run: "removeDomain sample_env (One ''a.test'') issued
      = (Inr (), snd (removeDomain sample_env (One ''a.test'') issued))"
    by (simp add: prod_eq_iff sample_removeDomain)
  have tr: "trace (snd (removeDomain sample_env (One ''a.test'') issued)) =
     trace issued @
     [AcquireCredentials, WriteCertificateConfig [''a.test''],
      Openssl [''ca'', ''-config'', ''/tmp/cert.conf'', ''-revoke'',
               ''/cfg/domains/a.test/certificate.crt'',
               ''-keyfile'', ''/tmp/ca.key'', ''-cert'', ''/tmp/ca.crt''],
      RemoveConfig ''/tmp/cert.conf'', ReleaseCredentials]
     @ Rimraf ''/cfg/domains/a.test'' # []"
  proof -
    have "trace issued = []" by (simp add: issued_def)
    then show ?thesis by (simp add: sample_removeDomain)
  qed
  from removeDomain_revokes_before_deleting [OF run tr]
  show ?thesis by (auto simp: sample_removeDomain(1))
qed

subsection \<open>What a revocation leaves on disk\<close>

lemma preserves_withCredentials:
  assumes acq: "\<And>fs p. p \<in> P \<Longrightarrow> snd (acquireCredentials_impl e fs) p = fs p"
    and rel: "\<And>fs p. p \<in> P \<Longrightarrow> releaseCredentials_impl e fs p = fs p"
    and cb: "\<And>creds. preserves (cb creds) P"
  shows "preserves (withCertificateAuthorityCredentials e cb) P"
  unfolding withCertificateAuthorityCredentials_def
proof (rule preserves_andThen [OF preserves_external [OF acq]])
  fix creds
  show "preserves (\<lambda>w. case cb creds w of
            (r, w') \<Rightarrow>
              (case external_total ReleaseCredentials (releaseCredentials_impl e) w' of
                 (_, w'') \<Rightarrow> (r, w''))) P"
    unfolding preserves_def
  proof (intro allI ballI)
    fix w p
    assume p: "p \<in> P"
    obtain r w1 where c: "cb creds w = (r, w1)" by (cases "cb creds w")
    from preservesD [OF cb c p] rel [OF p, of "files w1"]
    show "files (snd (case cb creds w of
            (r, w') \<Rightarrow>
              (case external_total ReleaseCredentials (releaseCredentials_impl e) w' of
                 (_, w'') \<Rightarrow> (r, w'')))) p = files w p"
      by (simp add: c external_total_def)
  qed
qed

lemma preserves_withCertificateConfig:
  assumes "\<And>fs p. p \<in> P \<Longrightarrow> snd (writeCertificateConfig_impl e ds fs) p = fs p"
    and "\<And>q fs p. p \<in> P \<Longrightarrow> removeConfig_impl e q fs p = fs p"
    and "\<And>config. preserves (cb config) P"
  shows "preserves (withDomainCertificateConfig e ds cb) P"
  unfolding withDomainCertificateConfig_def
  by (intro preserves_andThen preserves_external preserves_external_total assms)

lemma preserves_revokeDomainCertificate:
  assumes "revocationLeaves e P"
  shows "preserves (revokeDomainCertificate e ds) P"
  unfolding revokeDomainCertificate_def Let_def split_def openssl_def
  using assms
  by (intro preserves_withCredentials preserves_withCertificateConfig preserves_external)
     (auto simp: revocationLeaves_def)

text \<open>
  C10. When the revocation raises, \<open>removeDomain\<close> raises the same error and ends in
  the world that the revocation left: no deletion is among the calls of the run. Every
  path that the credential scope, the certificate configuration and the revoking
  subprocess leave alone holds after the run what it held before, the files of the
  domain set among them.
\<close>

theorem removeDomain_revocation_failure:
  assumes "revokeDomainCertificate e (toDomains rd) w = (Inl err, w1)"
  shows "removeDomain e rd w = (Inl err, w1) \<and>
         (\<exists>evs. trace w1 = trace w @ evs \<and> (\<forall>p. Rimraf p \<notin> set evs)) \<and>
         (\<forall>P. revocationLeaves e P \<longrightarrow> (\<forall>p\<in>P. files w1 p = files w p))"
proof (intro conjI allI impI ballI)
  show "removeDomain e rd w = (Inl err, w1)"
    using assms by (simp add: removeDomain_def Let_def andThen_def)
  from emitsD [OF emits_revokeDomainCertificate assms]
  show "\<exists>evs. trace w1 = trace w @ evs \<and> (\<forall>p. Rimraf p \<notin> set evs)"
    by (auto simp: subset_iff)
  fix P p
  assume "revocationLeaves e P" "p \<in> P"
  then show "files w1 p = files w p"
    using preservesD [OF preserves_revokeDomainCertificate assms] by blast
qed

lemma sample_revoke_keyOnly:
  "fst (revokeDomainCertificate sample_env [''a.test''] keyOnly)
     = Inl (ExternalFailure ''unable to load certificate'')"
  by code_simp

lemma sample_revocationLeaves:
  "revocationLeaves sample_env
     {''/cfg/domains/a.test'', ''/cfg/domains/a.test/private-key.key''}"
  by (simp add: revocationLeaves_def sample_env_def sample_openssl_def)

theorem removeDomain_revocation_failure_witness:
  "removeDomain sample_env (One ''a.test'') keyOnly
     = (Inl (ExternalFailure ''unable to load certificate''),
        snd (revokeDomainCertificate sample_env (toDomains (One ''a.test'')) keyOnly)) \<and>
   files (snd (revokeDomainCertificate sample_env (toDomains (One ''a.test'')) keyOnly))
       ''/cfg/domains/a.test/private-key.key''
     = Some (File ''RSA PRIVATE KEY'' 400)"
proof -
  have failed: "revokeDomainCertificate sample_env (toDomains (One ''a.test'')) keyOnly
      = (Inl (ExternalFailure ''unable to load certificate''),
         snd (revokeDomainCertificate sample_env (toDomains (One ''a.test'')) keyOnly))"
    by (simp add: prod_eq_iff sample_revoke_keyOnly)
  have before: "files keyOnly ''/cfg/domains/a.test/private-key.key''
      = Some (File ''RSA PRIVATE KEY'' 400)"
    by (simp add: keyOnly_def)
  from removeDomain_revocation_failure [OF failed] sample_revocationLeaves before
  show ?thesis by auto
qed

subsection \<open>The signing call\<close>

lemma generateKey_Inr:
  assumes "generateKey e filename w = (Inr u, w')"
  shows "trace w' = trace w @ [Openssl [''genrsa'', ''-out'', filename, ''2048''], Chmod filename 400]"
proof -
  from assms obtain out w1 where
    "openssl e [''genrsa'', ''-out'', filename, ''2048''] w = (Inr out, w1)"
    "chmod filename 400 w1 = (Inr u, w')"
    unfolding generateKey_def by (elim andThen_cases) auto
  from openssl_trace [OF this(1)] external_trace [OF this(2) [unfolded chmod_def]]
  show ?thesis by simp
qed

lemma generateDomainCertificate_Inr:
  assumes "generateDomainCertificate e ds w = (Inr u, w')"
  shows "\<exists>csrConfig certConfig caKey caCert.
           (\<exists>fs. fst (acquireCredentials_impl e fs) = Inr (caKey, caCert)) \<and>
           trace w' = trace w @
             [Mkdirp (pathForDomain e (getStableDomainPath e ds) []),
              Openssl [''genrsa'', ''-out'',
                       pathForDomain e (getStableDomainPath e ds) [''private-key.key''], ''2048''],
              Chmod (pathForDomain e (getStableDomainPath e ds) [''private-key.key'']) 400,
              WriteSigningRequestConfig ds,
              Openssl [''req'', ''-new'', ''-config'', csrConfig, ''-key'',
                       pathForDomain e (getStableDomainPath e ds) [''private-key.key''], ''-out'',
                       pathForDomain e (getStableDomainPath e ds) [''certificate-signing-request.csr'']],
              RemoveConfig csrConfig,
              AcquireCredentials,
              WriteCertificateConfig ds,
              Openssl [''ca'', ''-config'', certConfig, ''-in'',
                       pathForDomain e (getStableDomainPath e ds) [''certificate-signing-request.csr''],
                       ''-out'', pathForDomain e (getStableDomainPath e ds) [''certificate.crt''],
                       ''-keyfile'', caKey, ''-cert'', caCert, ''-days'', ''825'', ''-batch''],
              RemoveConfig certConfig,
              ReleaseCredentials]"
proof -
  let ?dp = "getStableDomainPath e ds"
  let ?key = "pathForDomain e ?dp [''private-key.key'']"
  let ?csr = "pathForDomain e ?dp [''certificate-signing-request.csr'']"
  let ?crt = "pathForDomain e ?dp [''certificate.crt'']"
  from assms obtain u1 w1 u2 w2 u3 w3 where
    mk: "mkdirp (pathForDomain e ?dp []) w = (Inr u1, w1)"
    and gk: "generateKey e ?key w1 = (Inr u2, w2)"
    and rq: "withDomainSigningRequestConfig e ds
          (\<lambda>configpath. openssl e [''req'', ''-new'', ''-config'', configpath,
                                   ''-key'', ?key, ''-out'', ?csr]) w2 = (Inr u3, w3)"
    and sg: "withCertificateAuthorityCredentials e
          (\<lambda>(caKeyPath, caCertPath).
             withDomainCertificateConfig e ds
               (\<lambda>domainCertConfigPath.
                  openssl e [''ca'', ''-config'', domainCertConfigPath,
                             ''-in'', ?csr, ''-out'', ?crt,
                             ''-keyfile'', caKeyPath, ''-cert'', caCertPath,
                             ''-days'', ''825'', ''-batch''])) w3 = (Inr u, w')"
    unfolding generateDomainCertificate_def Let_def
    by (elim andThen_cases) auto
  have t1: "trace w1 = trace w @ [Mkdirp (pathForDomain e ?dp [])]"
    using external_trace [OF mk [unfolded mkdirp_def]] .
  note t2 = generateKey_Inr [OF gk]
  from rq obtain csrConfig out w4 w5 where
    t3: "trace w4 = trace w2 @ [WriteSigningRequestConfig ds]"
    and req: "openssl e [''req'', ''-new'', ''-config'', csrConfig,
                        ''-key'', ?key, ''-out'', ?csr] w4 = (Inr out, w5)"
    and t5: "trace w3 = trace w5 @ [RemoveConfig csrConfig]"
    by (elim withSigningRequestConfig_Inr)
  note t4 = openssl_trace [OF req]
  from sg obtain k c w6 w7 where
    acq: "fst (acquireCredentials_impl e (files w3)) = Inr (k, c)"
    and t6: "trace w6 = trace w3 @ [AcquireCredentials]"
    and cfg: "withDomainCertificateConfig e ds
               (\<lambda>domainCertConfigPath.
                  openssl e [''ca'', ''-config'', domainCertConfigPath,
                             ''-in'', ?csr, ''-out'', ?crt,
                             ''-keyfile'', k, ''-cert'', c,
                             ''-days'', ''825'', ''-batch'']) w6 = (Inr u, w7)"
    and t10: "trace w' = trace w7 @ [ReleaseCredentials]"
    by (elim withCredentials_Inr) simp
  from cfg obtain certConfig out2 w8 w9 where
    t7: "trace w8 = trace w6 @ [WriteCertificateConfig ds]"
    and ca: "openssl e [''ca'', ''-config'', certConfig, ''-in'', ?csr, ''-out'', ?crt,
                       ''-keyfile'', k, ''-cert'', c, ''-days'', ''825'', ''-batch''] w8
               = (Inr out2, w9)"
    and t9: "trace w7 = trace w9 @ [RemoveConfig certConfig]"
    by (elim withCertificateConfig_Inr)
  note t8 = openssl_trace [OF ca]
  have "trace w' = trace w @
             [Mkdirp (pathForDomain e ?dp []),
              Openssl [''genrsa'', ''-out'', ?key, ''2048''],
              Chmod ?key 400,
              WriteSigningRequestConfig ds,
              Openssl [''req'', ''-new'', ''-config'', csrConfig, ''-key'', ?key, ''-out'', ?csr],
              RemoveConfig csrConfig,
              AcquireCredentials,
              WriteCertificateConfig ds,
              Openssl [''ca'', ''-config'', certConfig, ''-in'', ?csr, ''-out'', ?crt,
                       ''-keyfile'', k, ''-cert'', c, ''-days'', ''825'', ''-batch''],
              RemoveConfig certConfig,
              ReleaseCredentials]"
    by (simp only: t10 t9 t8 t7 t6 t5 t4 t3 t2 t1 append_assoc append_Cons append_Nil)
  with acq show ?thesis by blast
qed

lemma emits_generateDomainCertificate_signing:
  "emits (generateDomainCertificate e ds)
     {ev. \<forall>args. ev = Openssl args \<and> take 1 args = [''ca''] \<longrightarrow>
            (\<exists>config caKey caCert.
               args = [''ca'', ''-config'', config, ''-in'',
                       pathForDomain e (getStableDomainPath e ds) [''certificate-signing-request.csr''],
                       ''-out'', pathForDomain e (getStableDomainPath e ds) [''certificate.crt''],
                       ''-keyfile'', caKey, ''-cert'', caCert, ''-days'', ''825'', ''-batch''])}"
  unfolding generateDomainCertificate_def Let_def mkdirp_def split_def
  by (intro emits_andThen emits_external emits_generateKey emits_withSigningRequestConfig
      emits_withCredentials emits_withCertificateConfig emits_openssl) auto

text \<open>
  C8. In every run of \<open>generateDomainCertificate\<close>, each \<^verbatim>\<open>ca\<close> subprocess is
  called with the CSR of the domain set as input, its certificate as output, a CA key and
  a CA certificate, \<^verbatim>\<open>-days 825\<close> and \<^verbatim>\<open>-batch\<close>. In a run that returns without an
  exception the calls are exactly: directory, key, mode, CSR under its configuration, then
  the acquisition of the CA credentials, the certificate configuration, that signing call
  with the key and certificate paths that the acquisition handed out, the removal of the
  configuration and the release of the credentials.
\<close>

theorem generateDomainCertificate_signs_for_825_days:
  "(\<exists>evs. trace (snd (generateDomainCertificate e ds w)) = trace w @ evs \<and>
      (\<forall>args. Openssl args \<in> set evs \<and> take 1 args = [''ca''] \<longrightarrow>
         (\<exists>config caKey caCert.
            args = [''ca'', ''-config'', config, ''-in'',
                    pathForDomain e (getStableDomainPath e ds) [''certificate-signing-request.csr''],
                    ''-out'', pathForDomain e (getStableDomainPath e ds) [''certificate.crt''],
                    ''-keyfile'', caKey, ''-cert'', caCert, ''-days'', ''825'', ''-batch'']))) \<and>
   (fst (generateDomainCertificate e ds w) = Inr () \<longrightarrow>
      (\<exists>csrConfig certConfig caKey caCert.
         (\<exists>fs. fst (acquireCredentials_impl e fs) = Inr (caKey, caCert)) \<and>
         trace (snd (generateDomainCertificate e ds w)) = trace w @
           [Mkdirp (pathForDomain e (getStableDomainPath e ds) []),
            Openssl [''genrsa'', ''-out'',
                     pathForDomain e (getStableDomainPath e ds) [''private-key.key''], ''2048''],
            Chmod (pathForDomain e (getStableDomainPath e ds) [''private-key.key'']) 400,
            WriteSigningRequestConfig ds,
            Openssl [''req'', ''-new'', ''-config'', csrConfig, ''-key'',
                     pathForDomain e (getStableDomainPath e ds) [''private-key.key''], ''-out'',
                     pathForDomain e (getStableDomainPath e ds) [''certificate-signing-request.csr'']],
            RemoveConfig csrConfig,
            AcquireCredentials,
            WriteCertificateConfig ds,
            Openssl [''ca'', ''-config'', certConfig, ''-in'',
                     pathForDomain e (getStableDomainPath e ds) [''certificate-signing-request.csr''],
                     ''-out'', pathForDomain e (getStableDomainPath e ds) [''certificate.crt''],
                     ''-keyfile'', caKey, ''-cert'', caCert, ''-days'', ''825'', ''-batch''],
            RemoveConfig certConfig,
            ReleaseCredentials]))"
proof (intro conjI impI)
  have run: "generateDomainCertificate e ds w
      = (fst (generateDomainCertificate e ds w), snd (generateDomainCertificate e ds w))"
    by simp
  from emitsD [OF emits_generateDomainCertificate_signing run]
  show "\<exists>evs. trace (snd (generateDomainCertificate e ds w)) = trace w @ evs \<and>
      (\<forall>args. Openssl args \<in> set evs \<and> take 1 args = [''ca''] \<longrightarrow>
         (\<exists>config caKey caCert.
            args = [''ca'', ''-config'', config, ''-in'',
                    pathForDomain e (getStableDomainPath e ds) [''certificate-signing-request.csr''],
                    ''-out'', pathForDomain e (getStableDomainPath e ds) [''certificate.crt''],
                    ''-keyfile'', caKey, ''-cert'', caCert, ''-days'', ''825'', ''-batch'']))"
    by (auto simp: subset_iff)
next
  assume "fst (generateDomainCertificate e ds w) = Inr ()"
  then have "generateDomainCertificate e ds w = (Inr (), snd (generateDomainCertificate e ds w))"
    by (simp add: prod_eq_iff)
  then show "\<exists>csrConfig certConfig caKey caCert.
         (\<exists>fs. fst (acquireCredentials_impl e fs) = Inr (caKey, caCert)) \<and>
         trace (snd (generateDomainCertificate e ds w)) = trace w @
           [Mkdirp (pathForDomain e (getStableDomainPath e ds) []),
            Openssl [''genrsa'', ''-out'',
                     pathForDomain e (getStableDomainPath e ds) [''private-key.key''], ''2048''],
            Chmod (pathForDomain e (getStableDomainPath e ds) [''private-key.key'']) 400,
            WriteSigningRequestConfig ds,
            Openssl [''req'', ''-new'', ''-config'', csrConfig, ''-key'',
                     pathForDomain e (getStableDomainPath e ds) [''private-key.key''], ''-out'',
                     pathForDomain e (getStableDomainPath e ds) [''certificate-signing-request.csr'']],
            RemoveConfig csrConfig,
            AcquireCredentials,
            WriteCertificateConfig ds,
            Openssl [''ca'', ''-config'', certConfig, ''-in'',
                     pathForDomain e (getStableDomainPath e ds) [''certificate-signing-request.csr''],
                     ''-out'', pathForDomain e (getStableDomainPath e ds) [''certificate.crt''],
                     ''-keyfile'', caKey, ''-cert'', caCert, ''-days'', ''825'', ''-batch''],
            RemoveConfig certConfig,
            ReleaseCredentials]"
    by (rule generateDomainCertificate_Inr)
qed

lemma sample_generate:
  "fst (generateDomainCertificate sample_env [''a.test''] installed) = Inr ()"
  "trace (snd (generateDomainCertificate sample_env [''a.test''] installed)) =
     [Mkdirp ''/cfg/domains/a.test'',
      Openssl [''genrsa'', ''-out'', ''/cfg/domains/a.test/private-key.key'', ''2048''],
      Chmod ''/cfg/domains/a.test/private-key.key'' 400,
      WriteSigningRequestConfig [''a.test''],
      Openssl [''req'', ''-new'', ''-config'', ''/tmp/csr.conf'', ''-key'',
               ''/cfg/domains/a.test/private-key.key'', ''-out'',
               ''/cfg/domains/a.test/certificate-signing-request.csr''],
      RemoveConfig ''/tmp/csr.conf'', AcquireCredentials,
      WriteCertificateConfig [''a.test''],
      Openssl [''ca'', ''-config'', ''/tmp/cert.conf'', ''-in'',
               ''/cfg/domains/a.test/certificate-signing-request.csr'',
               ''-out'', ''/cfg/domains/a.test/certificate.crt'', ''-keyfile'',
               ''/tmp/ca.key'', ''-cert'', ''/tmp/ca.crt'', ''-days'', ''825'', ''-batch''],
      RemoveConfig ''/tmp/cert.conf'', ReleaseCredentials]"
  by code_simp+

theorem generateDomainCertificate_signs_for_825_days_witness:
  "fst (generateDomainCertificate sample_env [''a.test''] installed) = Inr () \<and>
   Openssl [''ca'', ''-config'', ''/tmp/cert.conf'', ''-in'',
            ''/cfg/domains/a.test/certificate-signing-request.csr'',
            ''-out'', ''/cfg/domains/a.test/certificate.crt'', ''-keyfile'',
            ''/tmp/ca.key'', ''-cert'', ''/tmp/ca.crt'', ''-days'', ''825'', ''-batch'']
     \<in> set (trace (snd (generateDomainCertificate sample_env [''a.test''] installed)))"
  using generateDomainCertificate_signs_for_825_days [of sample_env "[''a.test'']" installed]
  by (simp add: sample_generate)

subsection \<open>The expiry queries\<close>













subsection \<open>What the repair step and the hosts-file helper leave on disk\<close>

lemma preserves_ensureCACertReadable:
  "repairAndHostsLeave e P \<Longrightarrow> preserves (ensureCACertReadable e opts) P"
  by (auto simp: ensureCACertReadable_def repairAndHostsLeave_def intro!: preserves_external)

lemma preserves_addDomainsToHostFile:
  assumes "repairAndHostsLeave e P"
  shows "preserves (addDomainsToHostFile e ds) P"
proof (induction ds)
  case Nil
  show ?case by (simp add: preserves_done_with)
next
  case (Cons d ds)
  have "preserves (external_total (AddHost d) (addDomainToHostFileIfMissing_impl e d)) P"
    using assms by (auto simp: repairAndHostsLeave_def intro!: preserves_external_total)
  with Cons.IH show ?case
    by (auto intro!: preserves_andThen)
qed

lemma preserves_hostsStep:
  "repairAndHostsLeave e P \<Longrightarrow> preserves (hostsStep e opts ds) P"
  by (simp add: hostsStep_def preserves_addDomainsToHostFile preserves_done_with)

lemma caStep_with_ca_key:
  "exists (files w) (rootCAKeyPath e) \<Longrightarrow>
   caStep e opts w = (if getCaBuffer opts \<or> getCaPath opts then ensureCACertReadable e opts w
                      else (Inr (), w))"
  by (simp add: caStep_def done_with_def)

subsection \<open>The storage path lies under the domains directory\<close>








subsection \<open>Generation is guarded by the certificate file\<close>

lemma domainStep_present:
  "exists (files w) (pathForDomain e (getStableDomainPath e ds) [''certificate.crt'']) \<Longrightarrow>
   domainStep e ds w = (Inr (), w)"
  by (simp add: domainStep_def done_with_def)

lemma domainStep_absent:
  "\<not> exists (files w) (pathForDomain e (getStableDomainPath e ds) [''certificate.crt'']) \<Longrightarrow>
   domainStep e ds w = generateDomainCertificate e ds w"
  by (simp add: domainStep_def)

lemma andThen_first_event:
  assumes first: "\<And>w r w'. m w = (r, w') \<Longrightarrow> trace w' = trace w @ [ev]"
    and rest: "\<And>x. emits (f x) UNIV"
  shows "\<exists>evs. trace (snd (andThen m f w)) = trace w @ ev # evs"
proof -
  obtain r w1 where mw: "m w = (r, w1)" by (cases "m w")
  note t1 = first [OF mw]
  show ?thesis
  proof (cases r)
    case (Inl err)
    with mw t1 show ?thesis by (simp add: andThen_def)
  next
    case (Inr x)
    obtain r2 w2 where fw: "f x w1 = (r2, w2)" by (cases "f x w1")
    from emitsD [OF rest fw] obtain evs where "trace w2 = trace w1 @ evs" by blast
    with Inr mw fw t1 show ?thesis by (simp add: andThen_def)
  qed
qed

lemma generateDomainCertificate_starts:
  "\<exists>evs. trace (snd (generateDomainCertificate e ds w))
           = trace w @ Mkdirp (pathForDomain e (getStableDomainPath e ds) []) # evs"
  unfolding generateDomainCertificate_def Let_def split_def
proof (rule andThen_first_event)
  show "trace w' = trace w @ [Mkdirp (pathForDomain e (getStableDomainPath e ds) [])]"
    if "mkdirp (pathForDomain e (getStableDomainPath e ds) []) w = (r, w')" for w r w'
    using that unfolding mkdirp_def by (rule external_trace)
qed (intro emits_andThen emits_generateKey emits_withSigningRequestConfig
      emits_withCredentials emits_withCertificateConfig emits_openssl UNIV_I)

lemma emits_hosts_and_return:
  "emits (andThen (hostsStep e opts ds) (\<lambda>_. returnStep e opts ds)) (AddHost ` set ds)"
  by (intro emits_andThen emits_hostsStep emits_returnStep)

lemma emits_hosts_and_return_any:
  "emits (andThen (hostsStep e opts ds) (\<lambda>_. returnStep e opts ds)) UNIV"
  by (rule emits_mono [OF emits_hosts_and_return]) simp

lemma certificateFor_at_guard:
  assumes checks: "passesChecks e (toDomains rd)"
    and ca: "caStep e opts w = (Inr u, wa)"
  shows "certificateFor e rd opts w =
           andThen (domainStep e (toDomains rd))
             (\<lambda>_. andThen (hostsStep e opts (toDomains rd))
                (\<lambda>_. returnStep e opts (toDomains rd))) wa"
  unfolding certificateFor_checked [OF checks] using ca by (simp add: andThen_def)

lemma certificateFor_guard_present:
  assumes checks: "passesChecks e (toDomains rd)"
    and ca: "caStep e opts w = (Inr u, wa)"
    and present: "exists (files wa)
        (pathForDomain e (getStableDomainPath e (toDomains rd)) [''certificate.crt''])"
  shows "certificateFor e rd opts w =
           andThen (hostsStep e opts (toDomains rd)) (\<lambda>_. returnStep e opts (toDomains rd)) wa"
  unfolding certificateFor_at_guard [OF checks ca]
  by (simp add: andThen_def [of "domainStep e (toDomains rd)"] domainStep_present [OF present])

lemma certificateFor_guard_present_trace:
  assumes checks: "passesChecks e (toDomains rd)"
    and ca: "caStep e opts w = (Inr u, wa)"
    and present: "exists (files wa)
        (pathForDomain e (getStableDomainPath e (toDomains rd)) [''certificate.crt''])"
  shows "\<exists>evs. trace (snd (certificateFor e rd opts w)) = trace wa @ evs \<and>
           set evs \<subseteq> AddHost ` set (toDomains rd)"
  unfolding certificateFor_guard_present [OF checks ca present]
  using emits_hosts_and_return [of e opts "toDomains rd"] by (simp add: emits_def)

lemma certificateFor_guard_absent_trace:
  assumes checks: "passesChecks e (toDomains rd)"
    and ca: "caStep e opts w = (Inr u, wa)"
    and absent: "\<not> exists (files wa)
        (pathForDomain e (getStableDomainPath e (toDomains rd)) [''certificate.crt''])"
  shows "\<exists>evs. trace (snd (certificateFor e rd opts w))
           = trace wa @ Mkdirp (pathForDomain e (getStableDomainPath e (toDomains rd)) []) # evs"
proof -
  obtain rg wg where gen: "generateDomainCertificate e (toDomains rd) wa = (rg, wg)"
    by (cases "generateDomainCertificate e (toDomains rd) wa")
  from generateDomainCertificate_starts [of e "toDomains rd" wa] gen obtain evs1 where
    t1: "trace wg = trace wa @ Mkdirp (pathForDomain e (getStableDomainPath e (toDomains rd)) []) # evs1"
    by auto
  have cf: "certificateFor e rd opts w =
      (case rg of Inl err \<Rightarrow> (Inl err, wg)
       | Inr x \<Rightarrow> andThen (hostsStep e opts (toDomains rd))
                    (\<lambda>_. returnStep e opts (toDomains rd)) wg)"
    unfolding certificateFor_at_guard [OF checks ca]
    by (simp add: andThen_def [of "domainStep e (toDomains rd)"] domainStep_absent [OF absent] gen
        split: sum.splits)
  show ?thesis
  proof (cases rg)
    case (Inl err)
    with cf t1 show ?thesis by simp
  next
    case (Inr x)
    obtain r2 w2 where rest: "andThen (hostsStep e opts (toDomains rd))
                    (\<lambda>_. returnStep e opts (toDomains rd)) wg = (r2, w2)"
      by (cases "andThen (hostsStep e opts (toDomains rd))
                    (\<lambda>_. returnStep e opts (toDomains rd)) wg")
    from emitsD [OF emits_hosts_and_return_any rest] obtain evs2 where
      "trace w2 = trace wg @ evs2" by blast
    with Inr cf t1 rest show ?thesis by simp
  qed
qed

lemma certificateFor_second_call:
  fixes e rd
  defines "keyPath \<equiv> pathForDomain e (getStableDomainPath e (toDomains rd)) [''private-key.key'']"
    and "certPath \<equiv> pathForDomain e (getStableDomainPath e (toDomains rd)) [''certificate.crt'']"
  assumes first: "certificateFor e rd opts1 w0 = (Inr r1, w1)"
    and caKey: "exists (files w1) (rootCAKeyPath e)"
  shows "(getCaBuffer opts2 \<or> getCaPath opts2 \<longrightarrow>
            exists (files (snd (ensureCACertReadable e opts2 w1))) certPath) \<Longrightarrow>
         \<exists>evs. trace (snd (certificateFor e rd opts2 w1)) = trace w1 @ evs \<and>
           set evs \<subseteq> {EnsureCAReadable} \<union> AddHost ` set (toDomains rd)"
    and "repairAndHostsLeave e {keyPath, certPath} \<Longrightarrow>
         files (snd (certificateFor e rd opts2 w1)) keyPath = files w1 keyPath \<and>
         files (snd (certificateFor e rd opts2 w1)) certPath = files w1 certPath \<and>
         (\<forall>r2. fst (certificateFor e rd opts2 w1) = Inr r2 \<longrightarrow> key r2 = key r1 \<and> cert r2 = cert r1)"
proof -
  let ?ds = "toDomains rd"
  have checks: "passesChecks e ?ds"
    using first by (rule certificateFor_Inr_checked)
  from certificateFor_delivers [OF first] obtain mk mc where
    k1: "files w1 keyPath = Some (File (key r1) mk)"
    and c1: "files w1 certPath = Some (File (cert r1) mc)"
    unfolding keyPath_def certPath_def by blast
  obtain ra wa where ca: "caStep e opts2 w1 = (ra, wa)" by (cases "caStep e opts2 w1")
  note ca' = ca [unfolded caStep_with_ca_key [OF caKey]]
  have tra: "\<exists>evs. trace wa = trace w1 @ evs \<and> set evs \<subseteq> {EnsureCAReadable}"
  proof (cases "getCaBuffer opts2 \<or> getCaPath opts2")
    case True
    with ca' have "ensureCACertReadable e opts2 w1 = (ra, wa)" by simp
    from external_trace [OF this [unfolded ensureCACertReadable_def]] show ?thesis by simp
  next
    case False
    with ca' show ?thesis by simp
  qed
  have failed: "certificateFor e rd opts2 w1 = (Inl err, wa)" if "ra = Inl err" for err
    unfolding certificateFor_checked [OF checks] using ca that
    by (simp add: andThen_def [of "caStep e opts2"])
  {
    assume guard: "getCaBuffer opts2 \<or> getCaPath opts2 \<longrightarrow>
            exists (files (snd (ensureCACertReadable e opts2 w1))) certPath"
    have present: "exists (files wa) certPath"
    proof (cases "getCaBuffer opts2 \<or> getCaPath opts2")
      case True
      with ca' have "snd (ensureCACertReadable e opts2 w1) = wa" by simp
      with guard True show ?thesis by simp
    next
      case False
      with ca' have "wa = w1" by simp
      with c1 show ?thesis by (simp add: exists_def)
    qed
    show "\<exists>evs. trace (snd (certificateFor e rd opts2 w1)) = trace w1 @ evs \<and>
           set evs \<subseteq> {EnsureCAReadable} \<union> AddHost ` set ?ds"
    proof (cases ra)
      case (Inl err)
      with failed tra show ?thesis by auto
    next
      case (Inr u)
      from certificateFor_guard_present_trace
        [OF checks ca [unfolded Inr] present [unfolded certPath_def]]
      obtain evs2 where "trace (snd (certificateFor e rd opts2 w1)) = trace wa @ evs2"
        "set evs2 \<subseteq> AddHost ` set ?ds" by blast
      moreover from tra obtain evs1 where "trace wa = trace w1 @ evs1"
        "set evs1 \<subseteq> {EnsureCAReadable}" by blast
      ultimately have "trace (snd (certificateFor e rd opts2 w1)) = trace w1 @ (evs1 @ evs2)"
        "set (evs1 @ evs2) \<subseteq> {EnsureCAReadable} \<union> AddHost ` set ?ds" by auto
      then show ?thesis by blast
    qed
  }
  {
    assume leave: "repairAndHostsLeave e {keyPath, certPath}"
    have fa: "files wa keyPath = files w1 keyPath" "files wa certPath = files w1 certPath"
    proof -
      have "files wa p = files w1 p" if "p \<in> {keyPath, certPath}" for p
      proof (cases "getCaBuffer opts2 \<or> getCaPath opts2")
        case True
        with ca' have "ensureCACertReadable e opts2 w1 = (ra, wa)" by simp
        from preservesD [OF preserves_ensureCACertReadable [OF leave] this that]
        show ?thesis .
      next
        case False
        with ca' show ?thesis by simp
      qed
      then show "files wa keyPath = files w1 keyPath" "files wa certPath = files w1 certPath"
        by simp_all
    qed
    show "files (snd (certificateFor e rd opts2 w1)) keyPath = files w1 keyPath \<and>
         files (snd (certificateFor e rd opts2 w1)) certPath = files w1 certPath \<and>
         (\<forall>r2. fst (certificateFor e rd opts2 w1) = Inr r2 \<longrightarrow> key r2 = key r1 \<and> cert r2 = cert r1)"
    proof (cases ra)
      case (Inl err)
      from failed [OF Inl] have "snd (certificateFor e rd opts2 w1) = wa"
        "fst (certificateFor e rd opts2 w1) = Inl err" by simp_all
      with fa show ?thesis by simp
    next
      case (Inr u)
      have present: "exists (files wa) certPath"
        using fa c1 by (simp add: exists_def)
      note cf = certificateFor_guard_present
        [OF checks ca [unfolded Inr] present [unfolded certPath_def]]
      obtain rh wh where hs: "hostsStep e opts2 ?ds wa = (rh, wh)"
        by (cases "hostsStep e opts2 ?ds wa")
      have fh: "files wh keyPath = files w1 keyPath" "files wh certPath = files w1 certPath"
        using preservesD [OF preserves_hostsStep [OF leave] hs] fa by simp_all
      show ?thesis
      proof (cases rh)
        case (Inl err)
        have "certificateFor e rd opts2 w1 = (Inl err, wh)"
          unfolding cf using hs Inl by (simp add: andThen_def)
        then have "snd (certificateFor e rd opts2 w1) = wh"
          "fst (certificateFor e rd opts2 w1) = Inl err" by simp_all
        with fh show ?thesis by simp
      next
        case inr: (Inr u')
        obtain res w2 where ret: "returnStep e opts2 ?ds wh = (res, w2)"
          by (cases "returnStep e opts2 ?ds wh")
        from returnStep_world [OF ret] have w2: "w2 = wh" .
        have "certificateFor e rd opts2 w1 = (res, wh)"
          unfolding cf using hs inr ret w2 by (simp add: andThen_def)
        then have run: "snd (certificateFor e rd opts2 w1) = wh"
          "fst (certificateFor e rd opts2 w1) = res" by simp_all
        have same: "key r2 = key r1 \<and> cert r2 = cert r1" if "res = Inr r2" for r2
        proof -
          from ret that w2 have "returnStep e opts2 ?ds wh = (Inr r2, wh)" by simp
          from returnStep_Inr [OF this] obtain mk' mc' where
            "files wh keyPath = Some (File (key r2) mk')"
            "files wh certPath = Some (File (cert r2) mc')"
            unfolding keyPath_def certPath_def by blast
          with fh k1 c1 show ?thesis by simp
        qed
        show ?thesis
          unfolding run using fh same by blast
      qed
    qed
  }
qed

text \<open>
  C1. In a call of \<open>certificateFor\<close> that has passed its checks and its
  certificate-authority step, what decides the generation is the \<^verbatim>\<open>certificate.crt\<close>
  of the domain set and nothing else: with the file on disk the rest of the run makes no
  call but those of the hosts-file helper (no directory, no subprocess, no mode); without
  it the run goes on with the generation, whose first call makes the directory. So for a
  second call: after a call that delivered and left the root CA key on disk, a call for
  the same domains, with any options, in which the repair step (run only when the CA
  certificate is asked for) does not take the certificate away, adds to the trace at most
  the repair call and the calls of the hosts-file helper. Where the repair step and the
  hosts-file helper leave the key and the certificate of the domain set alone, both files
  are after the second call what they were before it, and a second call that delivers
  returns the same key and certificate as the first.
\<close>

theorem certificateFor_generates_only_without_certificate:
  "(passesChecks e (toDomains rd) \<and> caStep e opts w = (Inr u, wa) \<longrightarrow>
      (exists (files wa)
           (pathForDomain e (getStableDomainPath e (toDomains rd)) [''certificate.crt'']) \<longrightarrow>
         (\<exists>evs. trace (snd (certificateFor e rd opts w)) = trace wa @ evs \<and>
            set evs \<subseteq> AddHost ` set (toDomains rd))) \<and>
      (\<not> exists (files wa)
           (pathForDomain e (getStableDomainPath e (toDomains rd)) [''certificate.crt'']) \<longrightarrow>
         (\<exists>evs. trace (snd (certificateFor e rd opts w))
            = trace wa @ Mkdirp (pathForDomain e (getStableDomainPath e (toDomains rd)) []) # evs))) \<and>
   (certificateFor e rd opts1 w0 = (Inr r1, w1) \<and> exists (files w1) (rootCAKeyPath e) \<longrightarrow>
      ((getCaBuffer opts2 \<or> getCaPath opts2 \<longrightarrow>
          exists (files (snd (ensureCACertReadable e opts2 w1)))
            (pathForDomain e (getStableDomainPath e (toDomains rd)) [''certificate.crt''])) \<longrightarrow>
         (\<exists>evs. trace (snd (certificateFor e rd opts2 w1)) = trace w1 @ evs \<and>
            set evs \<subseteq> {EnsureCAReadable} \<union> AddHost ` set (toDomains rd))) \<and>
      (repairAndHostsLeave e
          {pathForDomain e (getStableDomainPath e (toDomains rd)) [''private-key.key''],
           pathForDomain e (getStableDomainPath e (toDomains rd)) [''certificate.crt'']} \<longrightarrow>
         files (snd (certificateFor e rd opts2 w1))
             (pathForDomain e (getStableDomainPath e (toDomains rd)) [''private-key.key''])
           = files w1 (pathForDomain e (getStableDomainPath e (toDomains rd)) [''private-key.key'']) \<and>
         files (snd (certificateFor e rd opts2 w1))
             (pathForDomain e (getStableDomainPath e (toDomains rd)) [''certificate.crt''])
           = files w1 (pathForDomain e (getStableDomainPath e (toDomains rd)) [''certificate.crt'']) \<and>
         (\<forall>r2. fst (certificateFor e rd opts2 w1) = Inr r2
            \<longrightarrow> key r2 = key r1 \<and> cert r2 = cert r1)))"
proof (intro conjI impI; (elim conjE)?)
  assume "passesChecks e (toDomains rd)" "caStep e opts w = (Inr u, wa)"
    "exists (files wa) (pathForDomain e (getStableDomainPath e (toDomains rd)) [''certificate.crt''])"
  then show "\<exists>evs. trace (snd (certificateFor e rd opts w)) = trace wa @ evs \<and>
            set evs \<subseteq> AddHost ` set (toDomains rd)"
    by (rule certificateFor_guard_present_trace)
next
  assume "passesChecks e (toDomains rd)" "caStep e opts w = (Inr u, wa)"
    "\<not> exists (files wa) (pathForDomain e (getStableDomainPath e (toDomains rd)) [''certificate.crt''])"
  then show "\<exists>evs. trace (snd (certificateFor e rd opts w))
            = trace wa @ Mkdirp (pathForDomain e (getStableDomainPath e (toDomains rd)) []) # evs"
    by (rule certificateFor_guard_absent_trace)
next
  assume "certificateFor e rd opts1 w0 = (Inr r1, w1)" "exists (files w1) (rootCAKeyPath e)"
    "getCaBuffer opts2 \<or> getCaPath opts2 \<longrightarrow>
          exists (files (snd (ensureCACertReadable e opts2 w1)))
            (pathForDomain e (getStableDomainPath e (toDomains rd)) [''certificate.crt''])"
  then show "\<exists>evs. trace (snd (certificateFor e rd opts2 w1)) = trace w1 @ evs \<and>
            set evs \<subseteq> {EnsureCAReadable} \<union> AddHost ` set (toDomains rd)"
    by (rule certificateFor_second_call(1))
next
  assume a: "certificateFor e rd opts1 w0 = (Inr r1, w1)" "exists (files w1) (rootCAKeyPath e)"
    "repairAndHostsLeave e
          {pathForDomain e (getStableDomainPath e (toDomains rd)) [''private-key.key''],
           pathForDomain e (getStableDomainPath e (toDomains rd)) [''certificate.crt'']}"
  note second = certificateFor_second_call(2) [OF a, of opts2]
  from second show "files (snd (certificateFor e rd opts2 w1))
             (pathForDomain e (getStableDomainPath e (toDomains rd)) [''private-key.key''])
           = files w1 (pathForDomain e (getStableDomainPath e (toDomains rd)) [''private-key.key''])"
    by blast
  from second show "files (snd (certificateFor e rd opts2 w1))
             (pathForDomain e (getStableDomainPath e (toDomains rd)) [''certificate.crt''])
           = files w1 (pathForDomain e (getStableDomainPath e (toDomains rd)) [''certificate.crt''])"
    by blast
  from second show "\<forall>r2. fst (certificateFor e rd opts2 w1) = Inr r2
            \<longrightarrow> key r2 = key r1 \<and> cert r2 = cert r1"
    by blast
qed

lemma wiping_checks:
  "passesChecks wiping_env (toDomains (One ''a.test''))"
  by (simp add: passesChecks_def wiping_env_def sample_env_def)

lemma wiping_caStep:
  "caStep wiping_env noOptions issued = (Inr (), issued)"
  "caStep wiping_env noOptions installed = (Inr (), installed)"
  by (simp_all add: caStep_def exists_def done_with_def noOptions_def issued_def installed_def
      wiping_env_def sample_env_def)

lemma wiping_paths:
  "pathForDomain wiping_env (getStableDomainPath wiping_env (toDomains (One ''a.test''))) []
     = ''/cfg/domains/a.test''"
  "pathForDomain wiping_env (getStableDomainPath wiping_env (toDomains (One ''a.test'')))
       [''certificate.crt'']
     = ''/cfg/domains/a.test/certificate.crt''"
  "pathForDomain wiping_env
       (getStableDomainPath wiping_env (toDomains (Many [''b.test'', ''a.test''])))
       [''private-key.key'']
     = ''/cfg/domains/a.test,b.test/private-key.key''"
  "pathForDomain wiping_env
       (getStableDomainPath wiping_env (toDomains (Many [''b.test'', ''a.test''])))
       [''certificate.crt'']
     = ''/cfg/domains/a.test,b.test/certificate.crt''"
  by code_simp+

lemma wiping_guard:
  "exists (files issued) ''/cfg/domains/a.test/certificate.crt''"
  "\<not> exists (files installed) ''/cfg/domains/a.test/certificate.crt''"
  by (simp_all add: exists_def issued_def installed_def)

lemma wiping_first_run:
  "fst (certificateFor wiping_env (Many [''b.test'', ''a.test'']) noOptions fresh)
     = Inr \<lparr>key = ''RSA PRIVATE KEY'', cert = ''CERTIFICATE'', ca = None, caPath = None\<rparr>"
  "exists (files (snd (certificateFor wiping_env (Many [''b.test'', ''a.test'']) noOptions fresh)))
     (rootCAKeyPath wiping_env)"
  "exists (files (snd (ensureCACertReadable wiping_env caOptions
       (snd (certificateFor wiping_env (Many [''b.test'', ''a.test'']) noOptions fresh)))))
     ''/cfg/domains/a.test,b.test/certificate.crt''"
  by code_simp+

lemma wiping_second_run:
  "fst (certificateFor wiping_env (Many [''b.test'', ''a.test'']) caOptions
          (snd (certificateFor wiping_env (Many [''b.test'', ''a.test'']) noOptions fresh)))
     = Inr \<lparr>key = ''RSA PRIVATE KEY'', cert = ''CERTIFICATE'',
            ca = Some ''CA CERTIFICATE'', caPath = None\<rparr>"
  by code_simp

lemma wiping_repairAndHostsLeave:
  "repairAndHostsLeave wiping_env
     {''/cfg/domains/a.test,b.test/private-key.key'', ''/cfg/domains/a.test,b.test/certificate.crt''}"
  by (simp add: repairAndHostsLeave_def wiping_env_def sample_env_def
      split: option.splits node.splits)

theorem certificateFor_generates_only_without_certificate_witness:
  "set (trace (snd (certificateFor wiping_env (One ''a.test'') noOptions issued)))
     \<subseteq> AddHost ` set [''a.test''] \<and>
   Mkdirp ''/cfg/domains/a.test''
     \<in> set (trace (snd (certificateFor wiping_env (One ''a.test'') noOptions installed))) \<and>
   fst (certificateFor wiping_env (Many [''b.test'', ''a.test'']) caOptions
          (snd (certificateFor wiping_env (Many [''b.test'', ''a.test'']) noOptions fresh)))
     = Inr \<lparr>key = ''RSA PRIVATE KEY'', cert = ''CERTIFICATE'',
            ca = Some ''CA CERTIFICATE'', caPath = None\<rparr> \<and>
   files (snd (certificateFor wiping_env (Many [''b.test'', ''a.test'']) caOptions
          (snd (certificateFor wiping_env (Many [''b.test'', ''a.test'']) noOptions fresh))))
       ''/cfg/domains/a.test,b.test/certificate.crt''
     = files (snd (certificateFor wiping_env (Many [''b.test'', ''a.test'']) noOptions fresh))
       ''/cfg/domains/a.test,b.test/certificate.crt'' \<and>
   Mkdirp ''/cfg/domains/a.test,b.test''
     \<notin> set (drop (length (trace (snd (certificateFor wiping_env (Many [''b.test'', ''a.test''])
                                         noOptions fresh))))
              (trace (snd (certificateFor wiping_env (Many [''b.test'', ''a.test'']) caOptions
                 (snd (certificateFor wiping_env (Many [''b.test'', ''a.test'']) noOptions
                    fresh))))))"
proof -
  have empty: "trace issued = []" "trace installed = []"
    by (simp_all add: issued_def installed_def)
  have first: "certificateFor wiping_env (Many [''b.test'', ''a.test'']) noOptions fresh
      = (Inr \<lparr>key = ''RSA PRIVATE KEY'', cert = ''CERTIFICATE'', ca = None, caPath = None\<rparr>,
         snd (certificateFor wiping_env (Many [''b.test'', ''a.test'']) noOptions fresh))"
    by (simp add: prod_eq_iff wiping_first_run(1))
  note present = certificateFor_generates_only_without_certificate
    [of wiping_env "One ''a.test''" noOptions issued "()" issued,
     unfolded wiping_paths, THEN conjunct1]
  note absent = certificateFor_generates_only_without_certificate
    [of wiping_env "One ''a.test''" noOptions installed "()" installed,
     unfolded wiping_paths, THEN conjunct1]
  note second = certificateFor_generates_only_without_certificate
    [of wiping_env "Many [''b.test'', ''a.test'']" _ _ _ _ noOptions fresh
        "\<lparr>key = ''RSA PRIVATE KEY'', cert = ''CERTIFICATE'', ca = None, caPath = None\<rparr>"
        "snd (certificateFor wiping_env (Many [''b.test'', ''a.test'']) noOptions fresh)" caOptions,
     unfolded wiping_paths, THEN conjunct2]
  from present wiping_checks wiping_caStep(1) wiping_guard(1) empty(1)
  have a: "set (trace (snd (certificateFor wiping_env (One ''a.test'') noOptions issued)))
     \<subseteq> AddHost ` set [''a.test'']"
    by auto
  from absent wiping_checks wiping_caStep(2) wiping_guard(2) empty(2)
  have b: "Mkdirp ''/cfg/domains/a.test''
     \<in> set (trace (snd (certificateFor wiping_env (One ''a.test'') noOptions installed)))"
    by auto
  from second first wiping_first_run(2) wiping_repairAndHostsLeave
  have c: "files (snd (certificateFor wiping_env (Many [''b.test'', ''a.test'']) caOptions
          (snd (certificateFor wiping_env (Many [''b.test'', ''a.test'']) noOptions fresh))))
       ''/cfg/domains/a.test,b.test/certificate.crt''
     = files (snd (certificateFor wiping_env (Many [''b.test'', ''a.test'']) noOptions fresh))
       ''/cfg/domains/a.test,b.test/certificate.crt''"
    by blast
  from second first wiping_first_run(2,3)
  have "\<exists>evs. trace (snd (certificateFor wiping_env (Many [''b.test'', ''a.test'']) caOptions
                 (snd (certificateFor wiping_env (Many [''b.test'', ''a.test'']) noOptions fresh))))
          = trace (snd (certificateFor wiping_env (Many [''b.test'', ''a.test'']) noOptions fresh))
            @ evs \<and>
          set evs \<subseteq> {EnsureCAReadable} \<union> AddHost ` set (toDomains (Many [''b.test'', ''a.test'']))"
    by blast
  then have d: "Mkdirp ''/cfg/domains/a.test,b.test''
     \<notin> set (drop (length (trace (snd (certificateFor wiping_env (Many [''b.test'', ''a.test''])
                                         noOptions fresh))))
              (trace (snd (certificateFor wiping_env (Many [''b.test'', ''a.test'']) caOptions
                 (snd (certificateFor wiping_env (Many [''b.test'', ''a.test'']) noOptions
                    fresh))))))"
    by auto
  from a b c d wiping_second_run show ?thesis by blast
qed

end
